theory Spec2Isabelle
  imports Main "HOL-Library.List_Lexorder" "HOL-Library.Multiset" "HOL-Library.AList"
begin

section \<open>Python values\<close>

text \<open>
  A Python \<open>str\<close> is a sequence of Unicode code points, so it is modelled as a list of
  natural numbers (\<open>ord\<close> of each character); \<open>len\<close> is \<open>length\<close>. ASCII literals
  of the source are written with \<open>ascii\<close>. Strings are compared as Python compares them:
  lexicographically by code point.
\<close>

type_synonym pystr = "nat list"

definition ascii :: "string \<Rightarrow> pystr" where
  "ascii s = map of_char s"

text \<open>The exceptions of the source that the model keeps as values.\<close>

datatype py_error = KeyError | FileNotFoundError

section \<open>scripts/separate\_shards.py\<close>

subsection \<open>The shard of a word\<close>

definition is_han_character :: "nat \<Rightarrow> bool" where
  "is_han_character code \<longleftrightarrow>
     (0x4E00 \<le> code \<and> code \<le> 0x9FFF) \<or>
     (0x3400 \<le> code \<and> code \<le> 0x4DBF) \<or>
     (0x20000 \<le> code \<and> code \<le> 0x2A6DF) \<or>
     (0x2A700 \<le> code \<and> code \<le> 0x2B73F) \<or>
     (0x2B740 \<le> code \<and> code \<le> 0x2B81F) \<or>
     (0x2B820 \<le> code \<and> code \<le> 0x2CEAF) \<or>
     (0x2CEB0 \<le> code \<and> code \<le> 0x2EBEF) \<or>
     (0x30000 \<le> code \<and> code \<le> 0x3134F)"

definition count_han_chars :: "pystr \<Rightarrow> nat" where
  "count_han_chars word = sum_list (map (\<lambda>c. 1) (filter is_han_character word))"

definition get_shard_for_word :: "pystr \<Rightarrow> string" where
  "get_shard_for_word word =
     (let han_count = count_han_chars word in
      if han_count = 0 then ''non-han''
      else if han_count = 1 then ''han-1char''
      else if han_count = 2 then ''han-2char''
      else ''han-3plus'')"

subsection \<open>The Han blocks as the glossary names them\<close>

text \<open>
  The specification counts the code points of a word that lie in the CJK Unified
  Ideographs block or in one of its Extensions A to G. The blocks are listed here with
  the boundaries the Unicode standard gives them, independently of the source's test.
\<close>

datatype han_block =
  CJK_Unified_Ideographs | Extension_A | Extension_B | Extension_C
  | Extension_D | Extension_E | Extension_F | Extension_G

fun block_first :: "han_block \<Rightarrow> nat" where
  "block_first CJK_Unified_Ideographs = 0x4E00"
| "block_first Extension_A = 0x3400"
| "block_first Extension_B = 0x20000"
| "block_first Extension_C = 0x2A700"
| "block_first Extension_D = 0x2B740"
| "block_first Extension_E = 0x2B820"
| "block_first Extension_F = 0x2CEB0"
| "block_first Extension_G = 0x30000"

fun block_last :: "han_block \<Rightarrow> nat" where
  "block_last CJK_Unified_Ideographs = 0x9FFF"
| "block_last Extension_A = 0x4DBF"
| "block_last Extension_B = 0x2A6DF"
| "block_last Extension_C = 0x2B73F"
| "block_last Extension_D = 0x2B81F"
| "block_last Extension_E = 0x2CEAF"
| "block_last Extension_F = 0x2EBEF"
| "block_last Extension_G = 0x3134F"

definition han_blocks :: "han_block list" where
  "han_blocks = [CJK_Unified_Ideographs, Extension_A, Extension_B, Extension_C,
                 Extension_D, Extension_E, Extension_F, Extension_G]"

definition in_han_blocks :: "nat \<Rightarrow> bool" where
  "in_han_blocks c = list_ex (\<lambda>b. block_first b \<le> c \<and> c \<le> block_last b) han_blocks"

definition han_code_points :: "pystr \<Rightarrow> nat" where
  "han_code_points w = length (filter in_han_blocks w)"

definition shard_names :: "string list" where
  "shard_names = [''non-han'', ''han-1char'', ''han-2char'', ''han-3plus'']"

subsection \<open>Separating the files\<close>

text \<open>\<open>str.endswith\<close> and \<open>str.startswith\<close>.\<close>

definition endswith :: "pystr \<Rightarrow> pystr \<Rightarrow> bool" where
  "endswith s suffix \<longleftrightarrow>
     length suffix \<le> length s \<and> drop (length s - length suffix) s = suffix"

definition startswith :: "pystr \<Rightarrow> pystr \<Rightarrow> bool" where
  "startswith s prefix \<longleftrightarrow> take (length prefix) s = prefix"

text \<open>\<open>str.rfind\<close> of one character: the highest index where it occurs, or \<open>-1\<close>.\<close>

fun rfind_from :: "nat \<Rightarrow> nat \<Rightarrow> pystr \<Rightarrow> int \<Rightarrow> int" where
  "rfind_from c i [] found = found"
| "rfind_from c i (x # xs) found = rfind_from c (Suc i) xs (if x = c then int i else found)"

definition rfind :: "pystr \<Rightarrow> nat \<Rightarrow> int" where
  "rfind s c = rfind_from c 0 s (- 1)"

text \<open>
  \<open>PurePath.stem\<close>: the file name without its last suffix; a name whose only dot is
  the first or the last character has no suffix.
\<close>

definition stem :: "pystr \<Rightarrow> pystr" where
  "stem name =
     (let i = rfind name 0x2E in
      if 0 < i \<and> i < int (length name) - 1 then take (nat i) name else name)"

text \<open>
  The files of a directory are its entries, name and contents; \<open>glob("*.json")\<close> keeps
  the entries whose name ends in \<open>.json\<close>. The shard directories are a map from
  (directory, file name) to contents, and \<open>shutil.copy2\<close> writes one entry of it.
\<close>

type_synonym 'c directory = "(pystr \<times> 'c) list"
type_synonym 'c shard_dirs = "string \<times> pystr \<rightharpoonup> 'c"

definition glob_json :: "'c directory \<Rightarrow> 'c directory" where
  "glob_json entries = filter (\<lambda>e. endswith (fst e) (ascii ''.json'')) entries"

definition shards :: "(string \<times> string) list" where
  "shards = [(''non-han'', ''output_non-han''), (''han-1char'', ''output_han-1char''),
             (''han-2char'', ''output_han-2char''), (''han-3plus'', ''output_han-3plus'')]"

fun separate_files ::
  "'c directory \<Rightarrow> 'c shard_dirs \<times> (string \<times> nat) list
     \<Rightarrow> py_error + 'c shard_dirs \<times> (string \<times> nat) list" where
  "separate_files [] st = Inr st"
| "separate_files (file_path # rest) (dirs, shard_counts) =
     (let word = stem (fst file_path);
          shard = get_shard_for_word word
      in case map_of shards shard of
           None \<Rightarrow> Inl KeyError
         | Some shard_dir \<Rightarrow>
             (case map_of shard_counts shard of
                None \<Rightarrow> Inl KeyError
              | Some n \<Rightarrow>
                  separate_files rest
                    (dirs((shard_dir, fst file_path) \<mapsto> snd file_path),
                     AList.update shard (n + 1) shard_counts)))"

text \<open>The verification at the end of \<open>main\<close> (lines 101 to 109): its return value.\<close>

definition verify_counts :: "(string \<times> nat) list \<Rightarrow> nat \<Rightarrow> nat" where
  "verify_counts shard_counts total_files =
     (if sum_list (map snd shard_counts) \<noteq> total_files then 1 else 0)"

record 'c separation =
  exit_status :: nat
  shard_dirs :: "'c shard_dirs"
  counts :: "(string \<times> nat) list"

text \<open>
  \<open>main\<close>: the source directory is \<open>None\<close> when it does not exist. The value is the
  exit status, the shard directories and the per-shard counts.
\<close>

definition separate_shards_main :: "'c directory option \<Rightarrow> 'c shard_dirs \<Rightarrow> py_error + 'c separation" where
  "separate_shards_main source_dir dirs =
     (case source_dir of
        None \<Rightarrow> Inr \<lparr>exit_status = 1, shard_dirs = dirs, counts = []\<rparr>
      | Some entries \<Rightarrow>
          (let all_files = glob_json entries;
               total_files = length all_files;
               shard_counts = map (\<lambda>shard. (shard, 0)) (map fst shards)
           in case separate_files all_files (dirs, shard_counts) of
                Inl e \<Rightarrow> Inl e
              | Inr (dirs', shard_counts') \<Rightarrow>
                  Inr \<lparr>exit_status = verify_counts shard_counts' total_files,
                       shard_dirs = dirs', counts = shard_counts'\<rparr>))"

text \<open>The shard that the loop of \<open>main\<close> computes for a file (lines 74 and 77).\<close>

definition shard_of_file :: "pystr \<times> 'c \<Rightarrow> string" where
  "shard_of_file f = get_shard_for_word (stem (fst f))"

section \<open>Python strings and dictionaries\<close>

text \<open>\<open>sep.join(xs)\<close>.\<close>

fun join :: "pystr \<Rightarrow> pystr list \<Rightarrow> pystr" where
  "join sep [] = []"
| "join sep [x] = x"
| "join sep (x # y # ys) = x @ sep @ join sep (y # ys)"

text \<open>
  The characters \<open>str.strip()\<close> removes from both ends: those for which
  \<open>str.isspace\<close> holds.
\<close>

definition isspace :: "nat \<Rightarrow> bool" where
  "isspace c \<longleftrightarrow>
     (0x09 \<le> c \<and> c \<le> 0x0D) \<or> (0x1C \<le> c \<and> c \<le> 0x20) \<or> c = 0x85 \<or> c = 0xA0 \<or>
     c = 0x1680 \<or> (0x2000 \<le> c \<and> c \<le> 0x200A) \<or> c = 0x2028 \<or> c = 0x2029 \<or>
     c = 0x202F \<or> c = 0x205F \<or> c = 0x3000"

definition strip :: "pystr \<Rightarrow> pystr" where
  "strip s = rev (dropWhile isspace (rev (dropWhile isspace s)))"

text \<open>\<open>s.split(c)\<close> for a separator of one character: never an empty list.\<close>

fun split :: "nat \<Rightarrow> pystr \<Rightarrow> pystr list" where
  "split c [] = [[]]"
| "split c (x # xs) =
     (if x = c then [] # split c xs
      else (case split c xs of [] \<Rightarrow> [[x]] | w # ws \<Rightarrow> (x # w) # ws))"

text \<open>
  A \<open>dict\<close> from strings to strings is an association list in insertion order with one
  entry per key: \<open>d[k] = v\<close> is \<open>AList.update k v d\<close>, which replaces the value of a
  present key in place and appends an absent one; \<open>k in d\<close> is \<open>map_of d k \<noteq> None\<close>.
\<close>

type_synonym pydict = "(pystr \<times> pystr) list"

section \<open>The conversion tool\<close>

text \<open>
  \<open>subprocess.run(['opencc', '-c', 'jp2t'], input=..., check=True)\<close>: the tool is a
  function from its standard input to what the call does.
\<close>

datatype process = Completed pystr | Called_process_error | Not_installed

type_synonym converter = "pystr \<Rightarrow> process"

section \<open>scripts/generate\_character\_mapping.py\<close>

text \<open>
  A \<open>set\<close> of strings is the list of its elements without repetition; the order in which
  Python iterates over it is not the order of insertion, so every iteration goes through
  a function the run is parameterised with, of which only a permutation is expected.
\<close>

fun add_literals :: "pystr option list \<Rightarrow> pystr list \<Rightarrow> pystr list" where
  "add_literals [] unique_kanji = unique_kanji"
| "add_literals (char_entry # rest) unique_kanji =
     (case char_entry of
        None \<Rightarrow> add_literals rest unique_kanji
      | Some kanji_char \<Rightarrow>
          if kanji_char \<noteq> [] then add_literals rest (List.insert kanji_char unique_kanji)
          else add_literals rest unique_kanji)"

definition extract_unique_kanji_from_kanjidic ::
  "(pystr list \<Rightarrow> pystr list) \<Rightarrow> pystr option list \<Rightarrow> pystr list" where
  "extract_unique_kanji_from_kanjidic iteration characters =
     sort (iteration (add_literals characters []))"

fun build_mapping :: "(pystr \<times> pystr) list \<Rightarrow> pydict \<Rightarrow> pydict" where
  "build_mapping [] mapping = mapping"
| "build_mapping ((original, converted) # rest) mapping =
     build_mapping rest
       (if converted \<noteq> original then AList.update original converted mapping else mapping)"

definition convert_lines :: "pystr list \<Rightarrow> pystr \<Rightarrow> pydict" where
  "convert_lines unique_kanji stdout =
     (let converted_lines = split 0x0A (strip stdout) in
      if length converted_lines \<noteq> length unique_kanji then []
      else build_mapping (zip unique_kanji converted_lines) [])"

definition generate_mapping_batch :: "converter \<Rightarrow> pystr list \<Rightarrow> pydict" where
  "generate_mapping_batch opencc unique_kanji =
     (case opencc (join [0x0A] unique_kanji) of
        Completed stdout \<Rightarrow> convert_lines unique_kanji stdout
      | Called_process_error \<Rightarrow> []
      | Not_installed \<Rightarrow> [])"

definition load_existing_j2c_mapping :: "pydict option \<Rightarrow> pydict" where
  "load_existing_j2c_mapping j2c = (case j2c of Some mapping \<Rightarrow> mapping | None \<Rightarrow> [])"

fun merge_items :: "pydict \<Rightarrow> pydict \<Rightarrow> pydict" where
  "merge_items [] merged = merged"
| "merge_items ((kanji, chinese) # rest) merged =
     merge_items rest
       (if map_of merged kanji = None then AList.update kanji chinese merged else merged)"

definition merge_mappings :: "pydict \<Rightarrow> pydict \<Rightarrow> pydict" where
  "merge_mappings existing_mapping character_mapping =
     merge_items character_mapping existing_mapping"

subsection \<open>\<open>json.dump\<close> of a mapping\<close>

definition hex_digit :: "nat \<Rightarrow> nat" where
  "hex_digit n = (if n < 10 then 0x30 + n else 0x61 + (n - 10))"

text \<open>The escapes of the \<open>json\<close> encoder with \<open>ensure_ascii=False\<close>.\<close>

definition json_escape :: "nat \<Rightarrow> pystr" where
  "json_escape c =
     (if c = 0x5C then [0x5C, 0x5C]
      else if c = 0x22 then [0x5C, 0x22]
      else if c = 0x08 then [0x5C, 0x62]
      else if c = 0x0C then [0x5C, 0x66]
      else if c = 0x0A then [0x5C, 0x6E]
      else if c = 0x0D then [0x5C, 0x72]
      else if c = 0x09 then [0x5C, 0x74]
      else if c < 0x20 then [0x5C, 0x75, 0x30, 0x30, hex_digit (c div 16), hex_digit (c mod 16)]
      else [c])"

definition json_string :: "pystr \<Rightarrow> pystr" where
  "json_string s = [0x22] @ concat (map json_escape s) @ [0x22]"

definition json_item :: "pystr \<times> pystr \<Rightarrow> pystr" where
  "json_item kv = json_string (fst kv) @ ascii '': '' @ json_string (snd kv)"

text \<open>
  \<open>json.dump(mapping, f, ensure_ascii=False, indent=2, sort_keys=...)\<close>: the text
  written. With \<open>sort_keys\<close> the items are taken in the order of their keys.
\<close>

definition json_dump :: "bool \<Rightarrow> pydict \<Rightarrow> pystr" where
  "json_dump sort_keys mapping =
     (let items = (if sort_keys then sort_key fst mapping else mapping) in
      if items = [] then ascii ''{}''
      else ascii ''{'' @ [0x0A, 0x20, 0x20]
           @ join ([0x2C, 0x0A, 0x20, 0x20]) (map json_item items)
           @ [0x0A] @ ascii ''}'')"

text \<open>The files a program writes, in order: path and text.\<close>

type_synonym writes = "(string \<times> pystr) list"

definition save_mapping_as_json :: "pydict \<Rightarrow> string \<Rightarrow> writes" where
  "save_mapping_as_json mapping output_path = [(output_path, json_dump True mapping)]"

text \<open>
  What \<open>main\<close> reads: the characters of KANJIDIC2 (each with its \<open>literal\<close> when it has
  one; \<open>None\<close> when the file is missing), whether the Chinese character dictionary
  exists, the mapping of \<open>output/j2c_mapping.json\<close> when that file exists, the tool and
  the iteration order of sets.
\<close>

record mapping_inputs =
  kanjidic :: "pystr option list option"
  chinese_char_exists :: bool
  j2c_mapping :: "pydict option"
  tool :: converter
  set_iteration :: "pystr list \<Rightarrow> pystr list"

datatype run_end = Exit nat | Saved

text \<open>
  \<open>main\<close> up to the saving of the merged mapping (lines 153 to 187); what follows
  only reads and prints.
\<close>

definition character_mapping_main :: "mapping_inputs \<Rightarrow> run_end \<times> writes" where
  "character_mapping_main inp =
     (case kanjidic inp of
        None \<Rightarrow> (Exit 1, [])
      | Some characters \<Rightarrow>
          if \<not> chinese_char_exists inp then (Exit 1, [])
          else
            let unique_kanji = extract_unique_kanji_from_kanjidic (set_iteration inp) characters;
                character_mapping = generate_mapping_batch (tool inp) unique_kanji
            in if character_mapping = [] then (Exit 1, [])
               else
                 let existing_mapping = load_existing_j2c_mapping (j2c_mapping inp);
                     merged_mapping = merge_mappings existing_mapping character_mapping
                 in (Saved, save_mapping_as_json merged_mapping ''output/j2c_mapping.json''))"


section \<open>scripts/generate\_kanji\_mapping.py\<close>

text \<open>
  A word of JMDict is its \<open>kanji\<close> list when it has one, each entry of the list its
  \<open>text\<close> when it has one.
\<close>

fun add_kanji_texts :: "pystr option list \<Rightarrow> pystr list \<Rightarrow> pystr list" where
  "add_kanji_texts [] unique_kanji = unique_kanji"
| "add_kanji_texts (kanji_entry # rest) unique_kanji =
     (case kanji_entry of
        None \<Rightarrow> add_kanji_texts rest unique_kanji
      | Some kanji_text \<Rightarrow>
          if kanji_text \<noteq> [] then add_kanji_texts rest (List.insert kanji_text unique_kanji)
          else add_kanji_texts rest unique_kanji)"

fun add_words :: "pystr option list option list \<Rightarrow> pystr list \<Rightarrow> pystr list" where
  "add_words [] unique_kanji = unique_kanji"
| "add_words (word # rest) unique_kanji =
     (case word of
        None \<Rightarrow> add_words rest unique_kanji
      | Some kanji \<Rightarrow>
          if kanji \<noteq> [] then add_words rest (add_kanji_texts kanji unique_kanji)
          else add_words rest unique_kanji)"

definition extract_unique_kanji_from_jmdict ::
  "(pystr list \<Rightarrow> pystr list) \<Rightarrow> pystr option list option list \<Rightarrow> pystr list" where
  "extract_unique_kanji_from_jmdict iteration words = sort (iteration (add_words words []))"

text \<open>
  This script's \<open>generate_mapping_batch\<close> has the same body, but catches
  \<open>CalledProcessError\<close> only: a missing tool is an exception of the caller.
\<close>

definition kanji_generate_mapping_batch :: "converter \<Rightarrow> pystr list \<Rightarrow> py_error + pydict" where
  "kanji_generate_mapping_batch opencc unique_kanji =
     (case opencc (join [0x0A] unique_kanji) of
        Completed stdout \<Rightarrow> Inr (convert_lines unique_kanji stdout)
      | Called_process_error \<Rightarrow> Inr []
      | Not_installed \<Rightarrow> Inl FileNotFoundError)"

text \<open>\<open>s.replace(old, new)\<close> for one character \<open>old\<close>.\<close>

definition replace :: "nat \<Rightarrow> pystr \<Rightarrow> pystr \<Rightarrow> pystr" where
  "replace old new s = concat (map (\<lambda>c. if c = old then new else [c]) s)"

definition rust_escaped :: "pystr \<Rightarrow> pystr" where
  "rust_escaped s = replace 0x22 [0x5C, 0x22] (replace 0x5C [0x5C, 0x5C] s)"

definition rust_insert :: "pystr \<times> pystr \<Rightarrow> pystr" where
  "rust_insert kv =
     ascii ''    map.insert('' @ [0x22] @ rust_escaped (fst kv) @ [0x22] @ ascii '', ''
       @ [0x22] @ rust_escaped (snd kv) @ [0x22] @ ascii '');'' @ [0x0A]"

text \<open>
  The Rust module written: the text before the insertions (lines 82 to 89) and after
  them (lines 98 to 127) is fixed, and is a parameter here.
\<close>

definition save_mapping_as_rust_code :: "pystr \<Rightarrow> pystr \<Rightarrow> pydict \<Rightarrow> string \<Rightarrow> writes" where
  "save_mapping_as_rust_code prologue epilogue mapping output_path =
     [(output_path, prologue @ concat (map rust_insert (sort_key fst mapping)) @ epilogue)]"

definition kanji_save_mapping_as_json :: "pydict \<Rightarrow> string \<Rightarrow> writes" where
  "kanji_save_mapping_as_json mapping output_path = [(output_path, json_dump False mapping)]"

record kanji_inputs =
  jmdict :: "pystr option list option list option"
  kanji_tool :: converter
  kanji_set_iteration :: "pystr list \<Rightarrow> pystr list"
  rust_prologue :: pystr
  rust_epilogue :: pystr

text \<open>\<open>main\<close> up to the saving of the two files (lines 143 to 166).\<close>

definition kanji_mapping_main :: "kanji_inputs \<Rightarrow> py_error + run_end \<times> writes" where
  "kanji_mapping_main inp =
     (case jmdict inp of
        None \<Rightarrow> Inr (Exit 1, [])
      | Some words \<Rightarrow>
          let unique_kanji = extract_unique_kanji_from_jmdict (kanji_set_iteration inp) words
          in case kanji_generate_mapping_batch (kanji_tool inp) unique_kanji of
               Inl e \<Rightarrow> Inl e
             | Inr mapping \<Rightarrow>
                 Inr (Saved,
                      save_mapping_as_rust_code (rust_prologue inp) (rust_epilogue inp) mapping
                        ''src/kanji_mapping_generated.rs''
                      @ kanji_save_mapping_as_json mapping ''output/kanji_mapping.json''))"

text \<open>
  Two dictionaries, or two absent ones, with the same entries: each has one entry per
  key, and they map the same keys to the same values, in whatever order.
\<close>

definition same_entries :: "pydict option \<Rightarrow> pydict option \<Rightarrow> bool" where
  "same_entries a b \<longleftrightarrow>
     (case a of
        None \<Rightarrow> b = None
      | Some x \<Rightarrow>
          (case b of
             None \<Rightarrow> False
           | Some y \<Rightarrow> distinct (map fst x) \<and> distinct (map fst y) \<and> map_of x = map_of y))"

section \<open>convert\_csv\_to\_sql.py\<close>

definition escape_sql_string :: "pystr option \<Rightarrow> pystr" where
  "escape_sql_string s = (case s of None \<Rightarrow> [] | Some t \<Rightarrow> replace 0x27 [0x27, 0x27] t)"

text \<open>
  A row of \<open>csv.DictReader\<close> maps the column names of the header to the values of the
  line; a value is \<open>None\<close> where the line is shorter than the header. A column the
  header lacks is a \<open>KeyError\<close>.
\<close>

type_synonym csv_row = "string \<rightharpoonup> pystr option"

definition column :: "csv_row \<Rightarrow> string \<Rightarrow> py_error + pystr option" where
  "column row name = (case row name of None \<Rightarrow> Inl KeyError | Some v \<Rightarrow> Inr v)"

text \<open>\<open>str(v)\<close>, as an f-string formats a value of a row.\<close>

definition str :: "pystr option \<Rightarrow> pystr" where
  "str v = (case v of None \<Rightarrow> ascii ''None'' | Some t \<Rightarrow> t)"

text \<open>The body of the loop up to \<open>value\<close> (lines 29 to 35).\<close>

definition row_value :: "csv_row \<Rightarrow> py_error + pystr" where
  "row_value row =
     (case column row ''word'' of Inl e \<Rightarrow> Inl e | Inr w \<Rightarrow>
      case column row ''language'' of Inl e \<Rightarrow> Inl e | Inr l \<Rightarrow>
      case column row ''definition'' of Inl e \<Rightarrow> Inl e | Inr d \<Rightarrow>
      case column row ''pronunciation'' of Inl e \<Rightarrow> Inl e | Inr p \<Rightarrow>
      case column row ''is_common'' of Inl e \<Rightarrow> Inl e | Inr is_common \<Rightarrow>
        let word = escape_sql_string w;
            language = escape_sql_string l;
            definition = escape_sql_string d;
            pronunciation = escape_sql_string p
        in Inr (ascii ''('' @ [0x27] @ word @ [0x27] @ ascii '', '' @ [0x27] @ language @ [0x27]
                @ ascii '', '' @ [0x27] @ definition @ [0x27] @ ascii '', '' @ [0x27]
                @ pronunciation @ [0x27] @ ascii '', '' @ str is_common @ ascii '')''))"

definition batch_size :: nat where
  "batch_size = 500"

definition insert_into :: pystr where
  "insert_into =
     ascii ''INSERT INTO dictionary_search (word, language, definition, pronunciation, is_common) VALUES''
     @ [0x0A]"

text \<open>The three writes of one statement: the batch and what ends it.\<close>

definition insert_statement :: "pystr list \<Rightarrow> pystr \<Rightarrow> pystr" where
  "insert_statement batch ending = insert_into @ join [0x2C, 0x0A] batch @ ending"

fun convert_rows :: "csv_row list \<Rightarrow> pystr list \<times> pystr \<Rightarrow> py_error + pystr list \<times> pystr" where
  "convert_rows [] st = Inr st"
| "convert_rows (row # rest) (batch, sqlfile) =
     (case row_value row of
        Inl e \<Rightarrow> Inl e
      | Inr v \<Rightarrow>
          if length (batch @ [v]) \<ge> batch_size
          then convert_rows rest
                 ([], sqlfile @ insert_statement (batch @ [v]) [0x3B, 0x0A, 0x0A])
          else convert_rows rest (batch @ [v], sqlfile))"

text \<open>\<open>main\<close>: the text of \<open>output_search_index.sql\<close> for the rows of the CSV file.\<close>

definition convert_csv_main :: "csv_row list \<Rightarrow> py_error + pystr" where
  "convert_csv_main reader =
     (case convert_rows reader ([], []) of
        Inl e \<Rightarrow> Inl e
      | Inr (batch, sqlfile) \<Rightarrow>
          Inr (if batch \<noteq> [] then sqlfile @ insert_statement batch [0x3B, 0x0A] else sqlfile))"

subsection \<open>How SQL reads a string literal\<close>

text \<open>
  The text after the opening quote of a literal: two quotes stand for one quote of the
  value, a quote before anything else ends the literal. The value and the text after the
  closing quote, or \<open>None\<close> when the literal is not closed.
\<close>

fun sql_literal :: "pystr \<Rightarrow> (pystr \<times> pystr) option" where
  "sql_literal [] = None"
| "sql_literal [c] = (if c = 0x27 then Some ([], []) else None)"
| "sql_literal (c # d # ds) =
     (if c = 0x27
      then (if d = 0x27 then map_option (apfst ((#) 0x27)) (sql_literal ds)
            else Some ([], d # ds))
      else map_option (apfst ((#) c)) (sql_literal (d # ds)))"

text \<open>The text after a given beginning, when it begins so.\<close>

definition after :: "pystr \<Rightarrow> pystr \<Rightarrow> pystr option" where
  "after beginning text =
     (if take (length beginning) text = beginning then Some (drop (length beginning) text)
      else None)"

text \<open>
  A parenthesised row that begins with four string literals separated by a comma and a
  space: the four values and the text after the fourth literal.
\<close>

definition sql_four_literals :: "pystr \<Rightarrow> (pystr list \<times> pystr) option" where
  "sql_four_literals text =
     (case after (ascii ''('' @ [0x27]) text of None \<Rightarrow> None | Some t1 \<Rightarrow>
      case sql_literal t1 of None \<Rightarrow> None | Some (v1, r1) \<Rightarrow>
      case after (ascii '', '' @ [0x27]) r1 of None \<Rightarrow> None | Some t2 \<Rightarrow>
      case sql_literal t2 of None \<Rightarrow> None | Some (v2, r2) \<Rightarrow>
      case after (ascii '', '' @ [0x27]) r2 of None \<Rightarrow> None | Some t3 \<Rightarrow>
      case sql_literal t3 of None \<Rightarrow> None | Some (v3, r3) \<Rightarrow>
      case after (ascii '', '' @ [0x27]) r3 of None \<Rightarrow> None | Some t4 \<Rightarrow>
      case sql_literal t4 of None \<Rightarrow> None | Some (v4, r4) \<Rightarrow>
        Some ([v1, v2, v3, v4], r4))"

text \<open>The string a value of a row stands for: \<open>None\<close> counts as the empty string.\<close>

definition text_of :: "pystr option \<Rightarrow> pystr" where
  "text_of v = (case v of None \<Rightarrow> [] | Some t \<Rightarrow> t)"

section \<open>scripts/jsonl\_to\_json.py\<close>

text \<open>
  \<open>json.loads\<close> is a parameter: a function from a line to the parsed object, to
  \<open>Invalid\<close> where Python raises \<open>JSONDecodeError\<close>, or to \<open>Raised\<close> where it raises
  another exception (\<open>RecursionError\<close> on deep nesting, \<open>ValueError\<close> on an integer of
  more digits than the interpreter converts). The messages printed are kept in order.
\<close>

datatype 'j loaded = Parsed 'j | Invalid | Raised

datatype message =
  Stopping int | Warning nat | Processed nat | Read_entries nat | File_not_found
  | Error_reading | Error_writing | Converted nat

text \<open>\<open>sample_size and i >= sample_size\<close>: no sample size and a sample size of 0 are false.\<close>

definition sample_stop :: "int option \<Rightarrow> nat \<Rightarrow> bool" where
  "sample_stop sample_size i \<longleftrightarrow>
     (case sample_size of None \<Rightarrow> False | Some n \<Rightarrow> n \<noteq> 0 \<and> int i \<ge> n)"

definition progress :: "nat \<Rightarrow> message list \<Rightarrow> message list" where
  "progress i out = (if (i + 1) mod 10000 = 0 then out @ [Processed (i + 1)] else out)"

text \<open>
  The loop over the lines of the file (lines 27 to 43), from line index \<open>i\<close>: the
  entries and the messages so far are the state. The file is what iterating it gives:
  a line, or \<open>None\<close> where the iterator raises \<open>UnicodeDecodeError\<close>; \<open>enumerate\<close>
  fetches the line before the body tests the sample size. \<open>break\<close> ends the loop;
  \<open>continue\<close> skips the progress message of the line. Only \<open>JSONDecodeError\<close> is caught
  in the loop (line 37): any other exception leaves it, which is \<open>Inl\<close> with the messages
  printed so far.
\<close>

fun read_lines ::
  "(pystr \<Rightarrow> 'j loaded) \<Rightarrow> int option \<Rightarrow> nat \<Rightarrow> pystr option list
     \<Rightarrow> 'j list \<times> message list \<Rightarrow> message list + 'j list \<times> message list" where
  "read_lines loads sample_size i [] st = Inr st"
| "read_lines loads sample_size i (None # rest) (entries, out) = Inl out"
| "read_lines loads sample_size i (Some line # rest) (entries, out) =
     (if sample_stop sample_size i
      then Inr (entries, out @ [Stopping (case sample_size of Some n \<Rightarrow> n | None \<Rightarrow> 0)])
      else
        let line = strip line in
        if line \<noteq> [] then
          (case loads line of
             Parsed entry \<Rightarrow>
               read_lines loads sample_size (Suc i) rest (entries @ [entry], progress i out)
           | Invalid \<Rightarrow>
               read_lines loads sample_size (Suc i) rest (entries, out @ [Warning (i + 1)])
           | Raised \<Rightarrow> Inl out)
        else read_lines loads sample_size (Suc i) rest (entries, progress i out))"

record 'j conversion =
  success :: bool
  written :: "'j list option"
  printed :: "message list"

text \<open>
  \<open>jsonl_to_json\<close>: the input file is what iterating it gives, or \<open>None\<close> when it does
  not exist; \<open>writable\<close> tells whether the output file can be written. \<open>written\<close> is
  the array that \<open>json.dump\<close> writes. An exception that leaves the loop is caught by
  \<open>except Exception\<close> (lines 48 to 50): the function returns \<open>False\<close> and the output
  file is not opened.
\<close>

definition jsonl_to_json ::
  "(pystr \<Rightarrow> 'j loaded) \<Rightarrow> pystr option list option \<Rightarrow> bool \<Rightarrow> int option
     \<Rightarrow> 'j conversion" where
  "jsonl_to_json loads input_file writable sample_size =
     (case input_file of
        None \<Rightarrow> \<lparr>success = False, written = None, printed = [File_not_found]\<rparr>
      | Some lines \<Rightarrow>
          (case read_lines loads sample_size 0 lines ([], []) of
             Inl out \<Rightarrow> \<lparr>success = False, written = None, printed = out @ [Error_reading]\<rparr>
           | Inr (entries, out) \<Rightarrow>
               if writable
               then \<lparr>success = True, written = Some entries,
                     printed = out @ [Read_entries (length entries), Converted (length entries)]\<rparr>
               else \<lparr>success = False, written = None,
                     printed = out @ [Read_entries (length entries), Error_writing]\<rparr>))"

subsection \<open>What the conversion is to produce\<close>



definition raises :: "(pystr \<Rightarrow> 'j loaded) \<Rightarrow> pystr \<Rightarrow> bool" where
  "raises loads line \<longleftrightarrow> strip line \<noteq> [] \<and> loads (strip line) = Raised"


text \<open>
  The lines the loop reads when it starts at index \<open>i\<close>: all of them, or in sample mode
  those before index \<open>sample_size\<close>.
\<close>

definition lines_from :: "int option \<Rightarrow> nat \<Rightarrow> pystr list \<Rightarrow> pystr list" where
  "lines_from sample_size i lines =
     (case sample_size of
        None \<Rightarrow> lines
      | Some n \<Rightarrow> if n = 0 then lines else take (nat (n - int i)) lines)"

definition lines_read :: "int option \<Rightarrow> pystr list \<Rightarrow> pystr list" where
  "lines_read sample_size lines = lines_from sample_size 0 lines"

section \<open>webapp/server.py\<close>

text \<open>
  What opening and reading a file gives when it does not raise \<open>FileNotFoundError\<close>:
  the contents of the file, or another exception (a file that is not UTF-8, a name the
  file system refuses), kept with the text \<open>str(e)\<close> of the exception. A file that does
  not exist is \<open>None\<close>. The server reads \<open>index.html\<close> of its own directory and the
  files of \<open>../output_dictionary\<close>, which are looked up by file name.
\<close>

datatype file_read = Contents pystr | Unreadable pystr

record server_files =
  index_html :: "file_read option"
  output_dictionary :: "pystr \<rightharpoonup> file_read"

text \<open>
  What the handler does with a request: a response it sends itself, with status, content
  type and body; the error response of \<open>send_error\<close> with a status; the static file
  handling it inherits; or an exception it does not catch, in which case no response is
  sent.
\<close>

datatype response =
  Sent nat string pystr | Send_error nat | Inherited_do_GET | Uncaught

text \<open>
  \<open>send_error(code, message)\<close> of \<open>http.server\<close>, for a request of HTTP/1.0 or later:
  the message goes into the status line, which \<open>send_response_only\<close> encodes with
  \<open>encode('latin-1', 'strict')\<close>. A message with a character above U+00FF raises
  \<open>UnicodeEncodeError\<close> there, before anything is sent.
\<close>

definition latin_1 :: "pystr \<Rightarrow> bool" where
  "latin_1 s \<longleftrightarrow> list_all (\<lambda>c. c < 256) s"

definition send_error :: "nat \<Rightarrow> pystr \<Rightarrow> response" where
  "send_error code message = (if latin_1 message then Send_error code else Uncaught)"

definition serve_index :: "server_files \<Rightarrow> response" where
  "serve_index files =
     (case index_html files of
        Some (Contents content) \<Rightarrow> Sent 200 ''text/html; charset=utf-8'' content
      | None \<Rightarrow> send_error 404 (ascii ''index.html not found'')
      | Some (Unreadable e) \<Rightarrow> Uncaught)"

text \<open>
  \<open>path.split('/')[-1]\<close> and \<open>filename[:-5]\<close>; \<open>split\<close> never gives an empty list.
  Both calls of \<open>send_error\<close> stand in an \<open>except\<close> block, so what they raise is
  caught by nothing.
\<close>

definition serve_json_file :: "server_files \<Rightarrow> pystr \<Rightarrow> response" where
  "serve_json_file files path =
     (let filename = last (split 0x2F path);
          character = take (length filename - 5) filename;
          json_file = character @ ascii ''.json''
      in case output_dictionary files json_file of
           Some (Contents content) \<Rightarrow> Sent 200 ''application/json; charset=utf-8'' content
         | None \<Rightarrow>
             send_error 404 (ascii ''Character '' @ [0x27] @ character @ [0x27] @ ascii '' not found'')
         | Some (Unreadable e) \<Rightarrow> send_error 500 (ascii ''Error loading character data: '' @ e))"

text \<open>\<open>do_GET\<close> on the decoded path, \<open>unquote(self.path)\<close>.\<close>

definition do_GET :: "server_files \<Rightarrow> pystr \<Rightarrow> response" where
  "do_GET files path =
     (if path = ascii ''/'' then serve_index files
      else if length path > 1 \<and> \<not> startswith path (ascii ''/static'') \<and> 0x2E \<notin> set path
      then serve_index files
      else if startswith path (ascii ''/output_dictionary/'') \<and> endswith path (ascii ''.json'')
      then serve_json_file files path
      else if startswith path (ascii ''/static'') \<or> 0x2E \<in> set path
      then Inherited_do_GET
      else serve_index files)"

section \<open>Properties of the sharder\<close>

lemma is_han_character_blocks: "is_han_character c = in_han_blocks c"
  by (simp add: is_han_character_def in_han_blocks_def han_blocks_def)

lemma count_han_chars_length: "count_han_chars w = length (filter is_han_character w)"
  by (simp add: count_han_chars_def sum_list_triv)

lemma count_han_chars_blocks: "count_han_chars w = han_code_points w"
proof -
  have "is_han_character = in_han_blocks"
    by (rule ext) (rule is_han_character_blocks)
  then show ?thesis
    by (simp add: count_han_chars_length han_code_points_def)
qed

lemma get_shard_for_word_cases:
  "get_shard_for_word w =
     (if count_han_chars w = 0 then ''non-han''
      else if count_han_chars w = 1 then ''han-1char''
      else if count_han_chars w = 2 then ''han-2char''
      else ''han-3plus'')"
  by (simp add: get_shard_for_word_def Let_def)

lemma get_shard_for_word_in_names: "get_shard_for_word w \<in> set shard_names"
  by (simp add: get_shard_for_word_cases shard_names_def)

text \<open>
  Claim C5. The shard of a word is one of the four shard names and is decided by the
  number of its code points in the Han blocks alone: \<open>non-han\<close> exactly for none,
  \<open>han-1char\<close> exactly for one, \<open>han-2char\<close> exactly for two, \<open>han-3plus\<close> exactly
  for three or more. The word U+7684 is in \<open>han-1char\<close>, \<open>abc\<close> in \<open>non-han\<close> and
  U+5B66 U+751F in \<open>han-2char\<close>.
\<close>

theorem get_shard_for_word_by_han_count:
  "get_shard_for_word w \<in> {''non-han'', ''han-1char'', ''han-2char'', ''han-3plus''} \<and>
   (get_shard_for_word w = ''non-han'' \<longleftrightarrow> han_code_points w = 0) \<and>
   (get_shard_for_word w = ''han-1char'' \<longleftrightarrow> han_code_points w = 1) \<and>
   (get_shard_for_word w = ''han-2char'' \<longleftrightarrow> han_code_points w = 2) \<and>
   (get_shard_for_word w = ''han-3plus'' \<longleftrightarrow> 3 \<le> han_code_points w) \<and>
   get_shard_for_word [0x7684] = ''han-1char'' \<and>
   get_shard_for_word (ascii ''abc'') = ''non-han'' \<and>
   get_shard_for_word [0x5B66, 0x751F] = ''han-2char''"
proof -
  have ex1: "get_shard_for_word [0x7684] = ''han-1char''"
    by (simp add: get_shard_for_word_cases count_han_chars_length is_han_character_def)
  have ex2: "get_shard_for_word (ascii ''abc'') = ''non-han''"
    by (simp add: get_shard_for_word_cases count_han_chars_length is_han_character_def ascii_def)
  have ex3: "get_shard_for_word [0x5B66, 0x751F] = ''han-2char''"
    by (simp add: get_shard_for_word_cases count_han_chars_length is_han_character_def)
  have gen: "get_shard_for_word w \<in> {''non-han'', ''han-1char'', ''han-2char'', ''han-3plus''} \<and>
   (get_shard_for_word w = ''non-han'' \<longleftrightarrow> han_code_points w = 0) \<and>
   (get_shard_for_word w = ''han-1char'' \<longleftrightarrow> han_code_points w = 1) \<and>
   (get_shard_for_word w = ''han-2char'' \<longleftrightarrow> han_code_points w = 2) \<and>
   (get_shard_for_word w = ''han-3plus'' \<longleftrightarrow> 3 \<le> han_code_points w)"
    unfolding get_shard_for_word_cases count_han_chars_blocks by auto
  from gen ex1 ex2 ex3 show ?thesis by blast
qed

subsection \<open>The separation into shard directories\<close>

lemma sum_update:
  "map_of cs k = Some n \<Longrightarrow>
   sum_list (map snd (AList.update k (Suc n) cs)) = Suc (sum_list (map snd cs))"
  by (induction cs) (auto split: if_splits)

lemma shard_dir_exists: "s \<in> set shard_names \<Longrightarrow> \<exists>d. map_of shards s = Some d"
  by (auto simp: shard_names_def shards_def)

lemma count_exists:
  "fst ` set cs = set shard_names \<Longrightarrow> s \<in> set shard_names \<Longrightarrow> \<exists>n. map_of cs s = Some n"
  by (metis domD dom_map_of_conv_image_fst)

lemma keys_update:
  "fst ` set cs = set shard_names \<Longrightarrow> s \<in> set shard_names \<Longrightarrow>
   fst ` set (AList.update s v cs) = set shard_names"
  by (simp add: AList.dom_update insert_absorb)


lemma separate_files_step:
  assumes "map_of shards (get_shard_for_word (stem (fst f))) = Some d"
    and "map_of cs (get_shard_for_word (stem (fst f))) = Some n"
  shows "separate_files (f # files) (dirs, cs) =
     separate_files files
       (dirs((d, fst f) \<mapsto> snd f), AList.update (get_shard_for_word (stem (fst f))) (Suc n) cs)"
  using assms by (simp add: Let_def)


lemma separate_files_total:
  "fst ` set cs = set shard_names \<Longrightarrow> \<exists>r. separate_files files (dirs, cs) = Inr r"
proof (induction files arbitrary: dirs cs)
  case Nil
  show ?case by simp
next
  case (Cons f files)
  define s where "s = get_shard_for_word (stem (fst f))"
  have sn: "s \<in> set shard_names"
    unfolding s_def by (rule get_shard_for_word_in_names)
  obtain d where d: "map_of shards s = Some d"
    using shard_dir_exists[OF sn] by blast
  obtain n where n: "map_of cs s = Some n"
    using count_exists[OF Cons.prems sn] by blast
  have keys: "fst ` set (AList.update s (Suc n) cs) = set shard_names"
    by (rule keys_update[OF Cons.prems sn])
  have step: "separate_files (f # files) (dirs, cs) =
     separate_files files (dirs((d, fst f) \<mapsto> snd f), AList.update s (Suc n) cs)"
    unfolding s_def by (rule separate_files_step) (use d n s_def in simp_all)
  show ?case unfolding step by (rule Cons.IH[OF keys])
qed


lemma separate_files_Cons:
  assumes "separate_files (f # files) (dirs, cs) = Inr r"
  obtains d n where "map_of shards (shard_of_file f) = Some d"
    and "map_of cs (shard_of_file f) = Some n"
    and "separate_files files
           (dirs((d, fst f) \<mapsto> snd f), AList.update (shard_of_file f) (Suc n) cs) = Inr r"
  using assms by (simp add: Let_def shard_of_file_def split: option.splits)

lemma separate_files_sum:
  "separate_files files (dirs, cs) = Inr (dirs', cs') \<Longrightarrow>
   sum_list (map snd cs') = sum_list (map snd cs) + length files"
proof (induction files arbitrary: dirs cs)
  case Nil
  then show ?case by simp
next
  case (Cons f files)
  from Cons.prems obtain d n where n: "map_of cs (shard_of_file f) = Some n"
    and r: "separate_files files
           (dirs((d, fst f) \<mapsto> snd f), AList.update (shard_of_file f) (Suc n) cs) = Inr (dirs', cs')"
    by (rule separate_files_Cons)
  show ?case using Cons.IH[OF r] sum_update[OF n] by simp
qed


lemma separate_files_dirs:
  "separate_files files (dirs, cs) = Inr (dirs', cs') \<Longrightarrow>
   (dirs' (d, n) \<noteq> None) =
     (dirs (d, n) \<noteq> None \<or>
      (n \<in> fst ` set files \<and> map_of shards (get_shard_for_word (stem n)) = Some d))"
proof (induction files arbitrary: dirs cs)
  case Nil
  then show ?case by simp
next
  case (Cons f files)
  from Cons.prems obtain d0 n0 where d0: "map_of shards (shard_of_file f) = Some d0"
    and r: "separate_files files
           (dirs((d0, fst f) \<mapsto> snd f), AList.update (shard_of_file f) (Suc n0) cs) = Inr (dirs', cs')"
    by (rule separate_files_Cons)
  have ih: "(dirs' (d, n) \<noteq> None) =
     ((dirs((d0, fst f) \<mapsto> snd f)) (d, n) \<noteq> None \<or>
      (n \<in> fst ` set files \<and> map_of shards (get_shard_for_word (stem n)) = Some d))"
    by (rule Cons.IH[OF r])
  show ?case
  proof (cases "n = fst f")
    case True
    then show ?thesis using ih d0 by (auto simp: shard_of_file_def)
  next
    case False
    then show ?thesis using ih by auto
  qed
qed


lemma shards_inj:
  "map_of shards s = Some d \<Longrightarrow> map_of shards t = Some d \<Longrightarrow> s = t"
  by (auto simp: shards_def split: if_splits)

lemma initial_counts_keys:
  "fst ` set (map (\<lambda>shard. (shard, 0::nat)) (map fst shards)) = set shard_names"
  by (simp add: shards_def shard_names_def)

lemma initial_counts_sum:
  "sum_list (map snd (map (\<lambda>shard. (shard, 0::nat)) (map fst shards))) = 0"
  by (simp add: shards_def)



lemma separate_shards_main_Some:
  assumes "separate_files (glob_json entries)
             (dirs, map (\<lambda>shard. (shard, 0)) (map fst shards)) = Inr (dirs', cs')"
  shows "separate_shards_main (Some entries) dirs =
     Inr \<lparr>exit_status = verify_counts cs' (length (glob_json entries)),
          shard_dirs = dirs', counts = cs'\<rparr>"
  using assms by (simp add: separate_shards_main_def Let_def)


text \<open>
  \<open>main\<close> on a source directory that exists: the loop raises no \<open>KeyError\<close>, and the
  counts it leaves add up to the number of files, so the exit status is 0.
\<close>

lemma separate_shards_main_result:
  obtains dirs' cs' where
    "separate_files (glob_json entries)
       (dirs, map (\<lambda>shard. (shard, 0)) (map fst shards)) = Inr (dirs', cs')"
    and "separate_shards_main (Some entries) dirs =
       Inr \<lparr>exit_status = 0, shard_dirs = dirs', counts = cs'\<rparr>"
proof -
  let ?files = "glob_json entries"
  let ?cs0 = "map (\<lambda>shard. (shard, 0::nat)) (map fst shards)"
  obtain r0 where "separate_files ?files (dirs, ?cs0) = Inr r0"
    using separate_files_total[OF initial_counts_keys] by blast
  then obtain dirs' cs' where sep: "separate_files ?files (dirs, ?cs0) = Inr (dirs', cs')"
    by (cases r0) simp
  have total: "sum_list (map snd cs') = length ?files"
    using separate_files_sum[OF sep] initial_counts_sum by simp
  have "separate_shards_main (Some entries) dirs =
       Inr \<lparr>exit_status = 0, shard_dirs = dirs', counts = cs'\<rparr>"
    unfolding separate_shards_main_Some[OF sep] by (simp add: verify_counts_def total)
  with sep show ?thesis by (rule that)
qed




text \<open>
  When the shard directories hold none of the source's file names beforehand, a source
  file's name is afterwards in the directory of its shard and of no other.
\<close>

lemma separate_shards_fresh_partition:
  assumes fresh: "\<forall>f\<in>set (glob_json entries). \<forall>sd\<in>set shards. dirs (snd sd, fst f) = None"
  shows "\<exists>r. separate_shards_main (Some entries) dirs = Inr r \<and> exit_status r = 0 \<and>
     (\<forall>f\<in>set (glob_json entries). \<forall>s d. map_of shards s = Some d \<longrightarrow>
        (shard_dirs r (d, fst f) \<noteq> None) = (s = shard_of_file f))"
proof -
  let ?files = "glob_json entries"
  let ?cs0 = "map (\<lambda>shard. (shard, 0::nat)) (map fst shards)"
  obtain dirs' cs' where sep: "separate_files ?files (dirs, ?cs0) = Inr (dirs', cs')"
    and m: "separate_shards_main (Some entries) dirs =
       Inr \<lparr>exit_status = 0, shard_dirs = dirs', counts = cs'\<rparr>"
    by (rule separate_shards_main_result)
  have "\<forall>f\<in>set ?files. \<forall>s d. map_of shards s = Some d \<longrightarrow>
        (dirs' (d, fst f) \<noteq> None) = (s = shard_of_file f)"
  proof (intro ballI allI impI)
    fix f s d assume f: "f \<in> set ?files" and sd: "map_of shards s = Some d"
    from sd have "(s, d) \<in> set shards" by (rule map_of_SomeD)
    with fresh f have none: "dirs (d, fst f) = None" by force
    have "(dirs' (d, fst f) \<noteq> None) =
       (map_of shards (get_shard_for_word (stem (fst f))) = Some d)"
      using separate_files_dirs[OF sep, of d "fst f"] none f by simp
    also have "\<dots> = (s = shard_of_file f)"
    proof
      assume "map_of shards (get_shard_for_word (stem (fst f))) = Some d"
      then show "s = shard_of_file f"
        unfolding shard_of_file_def using sd shards_inj by blast
    next
      assume "s = shard_of_file f"
      then show "map_of shards (get_shard_for_word (stem (fst f))) = Some d"
        using sd by (simp add: shard_of_file_def)
    qed
    finally show "(dirs' (d, fst f) \<noteq> None) = (s = shard_of_file f)" .
  qed
  then show ?thesis by (simp add: m)
qed

section \<open>Properties of the mapping scripts\<close>

subsection \<open>Merging\<close>

lemma update_absent: "map_of al k = None \<Longrightarrow> AList.update k v al = al @ [(k, v)]"
  by (induction al) (auto split: if_splits)

lemma merge_items_map_of: "map_of (merge_items N M) = map_of N ++ map_of M"
proof (induction N arbitrary: M)
  case Nil
  show ?case by simp
next
  case (Cons p N)
  obtain k c where p: "p = (k, c)" by (cases p)
  show ?case
  proof (cases "map_of M k")
    case None
    have "map_of (merge_items (p # N) M) = map_of N ++ map_of (AList.update k c M)"
      using None by (simp add: p Cons.IH)
    also have "\<dots> = map_of (p # N) ++ map_of M"
      using None by (auto simp: p AList.update_conv' map_add_def fun_eq_iff split: option.splits)
    finally show ?thesis .
  next
    case (Some v)
    have "map_of (merge_items (p # N) M) = map_of N ++ map_of M"
      using Some by (simp add: p Cons.IH)
    also have "\<dots> = map_of (p # N) ++ map_of M"
      using Some by (auto simp: p map_add_def fun_eq_iff split: option.splits)
    finally show ?thesis .
  qed
qed

lemma merge_items_extends: "\<exists>new. merge_items N M = M @ new"
proof (induction N arbitrary: M)
  case Nil
  show ?case by simp
next
  case (Cons p N)
  obtain k c where p: "p = (k, c)" by (cases p)
  show ?case
  proof (cases "map_of M k")
    case None
    obtain new where "merge_items N (M @ [(k, c)]) = (M @ [(k, c)]) @ new"
      using Cons.IH by blast
    then show ?thesis using None by (simp add: p update_absent)
  next
    case (Some v)
    then show ?thesis using Cons.IH[of M] by (simp add: p)
  qed
qed

lemma merge_items_distinct:
  "distinct (map fst M) \<Longrightarrow> distinct (map fst (merge_items N M))"
  by (induction N arbitrary: M) (auto simp: AList.distinct_update)

text \<open>
  Claim C6. Merging an empty mapping changes nothing; the merged mapping starts with
  the existing one, keeps the value of every key of the existing mapping, and for a key
  the existing mapping does not have it holds what the character mapping holds.
\<close>

theorem merge_mappings_additive:
  "merge_mappings M [] = M \<and>
   (\<forall>k v. map_of M k = Some v \<longrightarrow> map_of (merge_mappings M N) k = Some v) \<and>
   (\<forall>k. map_of M k = None \<longrightarrow> map_of (merge_mappings M N) k = map_of N k) \<and>
   (\<exists>new. merge_mappings M N = M @ new)"
proof -
  have 1: "merge_mappings M [] = M" by (simp add: merge_mappings_def)
  have 2: "\<forall>k v. map_of M k = Some v \<longrightarrow> map_of (merge_mappings M N) k = Some v"
    by (simp add: merge_mappings_def merge_items_map_of map_add_def)
  have 3: "\<forall>k. map_of M k = None \<longrightarrow> map_of (merge_mappings M N) k = map_of N k"
    by (simp add: merge_mappings_def merge_items_map_of map_add_def)
  have 4: "\<exists>new. merge_mappings M N = M @ new"
    unfolding merge_mappings_def by (rule merge_items_extends)
  from 1 2 3 4 show ?thesis by blast
qed

theorem merge_mappings_additive_witness:
  "map_of (merge_mappings [([0x5B66], [0x5B78])] [([0x5B66], [0x5B79]), ([0x56FD], [0x570B])])
     [0x5B66] = Some [0x5B78] \<and>
   map_of (merge_mappings [([0x5B66], [0x5B78])] [([0x5B66], [0x5B79]), ([0x56FD], [0x570B])])
     [0x56FD] = Some [0x570B]"
  using merge_mappings_additive
    [of "[([0x5B66], [0x5B78])]" "[([0x5B66], [0x5B79]), ([0x56FD], [0x570B])]"]
  by simp


subsection \<open>Independence of iteration order\<close>

lemma sort_iteration: "mset (iteration xs) = mset xs \<Longrightarrow> sort (iteration xs) = sort xs"
  by (rule properties_for_sort) simp_all

lemma filter_key_distinct:
  "distinct (map fst l) \<Longrightarrow> k \<in> set l \<Longrightarrow> filter (\<lambda>x. fst k = fst x) l = [k]"
proof (induction l)
  case Nil
  then show ?case by simp
next
  case (Cons a l)
  show ?case
  proof (cases "k = a")
    case True
    have "filter (\<lambda>x. fst a = fst x) l = []"
      using Cons.prems(1) by (auto simp: filter_empty_conv)
    then show ?thesis using True by simp
  next
    case False
    then have kl: "k \<in> set l" using Cons.prems(2) by simp
    then have "fst k \<in> fst ` set l" by (rule imageI)
    moreover have "fst a \<notin> fst ` set l" using Cons.prems(1) by simp
    ultimately have "fst k \<noteq> fst a" by metis
    then show ?thesis using Cons.IH kl Cons.prems(1) by simp
  qed
qed

lemma sort_key_fst_unique:
  fixes xs ys :: "('k::linorder \<times> 'v) list"
  assumes dx: "distinct (map fst xs)" and dy: "distinct (map fst ys)"
    and m: "map_of xs = map_of ys"
  shows "sort_key fst xs = sort_key fst ys"
proof (rule properties_for_sort_key)
  have s: "set xs = set ys"
    using map_of_inject_set[OF dx dy] m by blast
  have "distinct xs" "distinct ys"
    using dx dy by (auto dest: distinct_map[THEN iffD1])
  then have ms: "mset xs = mset ys"
    using s by (simp add: set_eq_iff_mset_eq_distinct)
  show "mset (sort_key fst ys) = mset xs"
    using ms by simp
  show "sorted (map fst (sort_key fst ys))"
    by (rule sorted_sort_key)
  fix k assume k: "k \<in> set (sort_key fst ys)"
  have "mset (map fst (sort_key fst ys)) = mset (map fst ys)" by simp
  then have d: "distinct (map fst (sort_key fst ys))"
    using dy by (metis mset_eq_imp_distinct_iff)
  have kx: "k \<in> set xs" using k s by simp
  show "filter (\<lambda>x. fst k = fst x) (sort_key fst ys) = filter (\<lambda>x. fst k = fst x) xs"
    using filter_key_distinct[OF d k] filter_key_distinct[OF dx kx] by simp
qed

lemma json_dump_sorted_unique:
  assumes "distinct (map fst xs)" and "distinct (map fst ys)" and "map_of xs = map_of ys"
  shows "json_dump True xs = json_dump True ys"
  using sort_key_fst_unique[OF assms] by (simp add: json_dump_def)

lemma merge_mappings_same:
  assumes "same_entries a b"
  shows "distinct (map fst (merge_mappings (load_existing_j2c_mapping a) cm)) \<and>
     distinct (map fst (merge_mappings (load_existing_j2c_mapping b) cm)) \<and>
     map_of (merge_mappings (load_existing_j2c_mapping a) cm) =
       map_of (merge_mappings (load_existing_j2c_mapping b) cm)"
proof (cases a)
  case None
  then have "b = None" using assms by (simp add: same_entries_def)
  then show ?thesis
    using None by (simp add: merge_mappings_def load_existing_j2c_mapping_def merge_items_distinct)
next
  case (Some x)
  then obtain y where y: "b = Some y"
    using assms by (cases b) (simp_all add: same_entries_def)
  have "distinct (map fst x)" "distinct (map fst y)" "map_of x = map_of y"
    using assms Some y by (simp_all add: same_entries_def)
  then show ?thesis
    using Some y
    by (simp add: merge_mappings_def load_existing_j2c_mapping_def merge_items_distinct
        merge_items_map_of)
qed

text \<open>
  Claim C7. Two runs of the character-mapping build on the same KANJIDIC2 characters,
  the same prior mapping (the same entries, in whatever order the dictionaries hold them)
  and the same conversion tool end the same way and write the same file with the same
  text, whatever order each run iterates its set of kanji in.
\<close>

theorem character_mapping_build_deterministic:
  assumes "\<forall>xs. mset (set_iteration a xs) = mset xs"
    and "\<forall>xs. mset (set_iteration b xs) = mset xs"
    and "kanjidic a = kanjidic b"
    and "chinese_char_exists a = chinese_char_exists b"
    and "tool a = tool b"
    and "same_entries (j2c_mapping a) (j2c_mapping b)"
  shows "character_mapping_main a = character_mapping_main b"
proof (cases "kanjidic a")
  case None
  then show ?thesis using assms(3) by (simp add: character_mapping_main_def)
next
  case (Some characters)
  have u: "extract_unique_kanji_from_kanjidic (set_iteration a) characters =
           extract_unique_kanji_from_kanjidic (set_iteration b) characters"
    unfolding extract_unique_kanji_from_kanjidic_def
    using assms(1,2) by (simp add: sort_iteration)
  define cm where "cm = generate_mapping_batch (tool b)
     (extract_unique_kanji_from_kanjidic (set_iteration b) characters)"
  have j: "json_dump True (merge_mappings (load_existing_j2c_mapping (j2c_mapping a)) cm) =
           json_dump True (merge_mappings (load_existing_j2c_mapping (j2c_mapping b)) cm)"
    using merge_mappings_same[OF assms(6), of cm] by (intro json_dump_sorted_unique) simp_all
  show ?thesis
    using Some assms(3,4,5) u j
    by (simp add: character_mapping_main_def Let_def save_mapping_as_json_def cm_def)
qed

theorem character_mapping_build_deterministic_witness:
  "character_mapping_main
     \<lparr>kanjidic = Some [Some [0x5B66], None, Some [], Some [0x56FD], Some [0x5B66]],
      chinese_char_exists = True,
      j2c_mapping = Some [([0x5B66, 0x751F], [0x5B78, 0x751F]), ([0x4F1A], [0x6703])],
      tool = (\<lambda>i. Completed [0x570B, 0x0A, 0x5B78, 0x0A]),
      set_iteration = rev\<rparr> =
   character_mapping_main
     \<lparr>kanjidic = Some [Some [0x5B66], None, Some [], Some [0x56FD], Some [0x5B66]],
      chinese_char_exists = True,
      j2c_mapping = Some [([0x4F1A], [0x6703]), ([0x5B66, 0x751F], [0x5B78, 0x751F])],
      tool = (\<lambda>i. Completed [0x570B, 0x0A, 0x5B78, 0x0A]),
      set_iteration = (\<lambda>xs. xs)\<rparr> \<and>
   character_mapping_main
     \<lparr>kanjidic = Some [Some [0x5B66], None, Some [], Some [0x56FD], Some [0x5B66]],
      chinese_char_exists = True,
      j2c_mapping = Some [([0x5B66, 0x751F], [0x5B78, 0x751F]), ([0x4F1A], [0x6703])],
      tool = (\<lambda>i. Completed [0x570B, 0x0A, 0x5B78, 0x0A]),
      set_iteration = rev\<rparr> =
   (Saved, [(''output/j2c_mapping.json'',
     [0x7B, 0x0A, 0x20, 0x20, 0x22, 0x4F1A, 0x22, 0x3A, 0x20, 0x22, 0x6703, 0x22, 0x2C, 0x0A,
      0x20, 0x20, 0x22, 0x56FD, 0x22, 0x3A, 0x20, 0x22, 0x570B, 0x22, 0x2C, 0x0A,
      0x20, 0x20, 0x22, 0x5B66, 0x22, 0x3A, 0x20, 0x22, 0x5B78, 0x22, 0x2C, 0x0A,
      0x20, 0x20, 0x22, 0x5B66, 0x751F, 0x22, 0x3A, 0x20, 0x22, 0x5B78, 0x751F, 0x22, 0x0A,
      0x7D])])"
proof
  show "character_mapping_main
     \<lparr>kanjidic = Some [Some [0x5B66], None, Some [], Some [0x56FD], Some [0x5B66]],
      chinese_char_exists = True,
      j2c_mapping = Some [([0x5B66, 0x751F], [0x5B78, 0x751F]), ([0x4F1A], [0x6703])],
      tool = (\<lambda>i. Completed [0x570B, 0x0A, 0x5B78, 0x0A]),
      set_iteration = rev\<rparr> =
   character_mapping_main
     \<lparr>kanjidic = Some [Some [0x5B66], None, Some [], Some [0x56FD], Some [0x5B66]],
      chinese_char_exists = True,
      j2c_mapping = Some [([0x4F1A], [0x6703]), ([0x5B66, 0x751F], [0x5B78, 0x751F])],
      tool = (\<lambda>i. Completed [0x570B, 0x0A, 0x5B78, 0x0A]),
      set_iteration = (\<lambda>xs. xs)\<rparr>"
    by (rule character_mapping_build_deterministic)
       (auto simp: same_entries_def fun_eq_iff)
  show "character_mapping_main
     \<lparr>kanjidic = Some [Some [0x5B66], None, Some [], Some [0x56FD], Some [0x5B66]],
      chinese_char_exists = True,
      j2c_mapping = Some [([0x5B66, 0x751F], [0x5B78, 0x751F]), ([0x4F1A], [0x6703])],
      tool = (\<lambda>i. Completed [0x570B, 0x0A, 0x5B78, 0x0A]),
      set_iteration = rev\<rparr> =
   (Saved, [(''output/j2c_mapping.json'',
     [0x7B, 0x0A, 0x20, 0x20, 0x22, 0x4F1A, 0x22, 0x3A, 0x20, 0x22, 0x6703, 0x22, 0x2C, 0x0A,
      0x20, 0x20, 0x22, 0x56FD, 0x22, 0x3A, 0x20, 0x22, 0x570B, 0x22, 0x2C, 0x0A,
      0x20, 0x20, 0x22, 0x5B66, 0x22, 0x3A, 0x20, 0x22, 0x5B78, 0x22, 0x2C, 0x0A,
      0x20, 0x20, 0x22, 0x5B66, 0x751F, 0x22, 0x3A, 0x20, 0x22, 0x5B78, 0x751F, 0x22, 0x0A,
      0x7D])])"
    by (simp add: character_mapping_main_def Let_def generate_mapping_batch_def
        extract_unique_kanji_from_kanjidic_def convert_lines_def strip_def isspace_def
        load_existing_j2c_mapping_def merge_mappings_def save_mapping_as_json_def json_dump_def
        json_item_def json_string_def json_escape_def ascii_def List.insert_def)
qed

subsection \<open>A conversion that returns the wrong number of lines\<close>

lemma convert_lines_mismatch:
  "length (split 0x0A (strip stdout)) \<noteq> length unique_kanji \<Longrightarrow>
   convert_lines unique_kanji stdout = []"
  by (simp add: convert_lines_def Let_def)

lemma character_mapping_main_mismatch:
  assumes "tool inp (join [0x0A] unique_kanji) = Completed stdout"
    and "length (split 0x0A (strip stdout)) \<noteq> length unique_kanji"
    and "kanjidic inp = Some characters"
    and "unique_kanji = extract_unique_kanji_from_kanjidic (set_iteration inp) characters"
  shows "character_mapping_main inp = (Exit 1, [])"
  using assms
  by (simp add: character_mapping_main_def Let_def generate_mapping_batch_def
      convert_lines_mismatch)

lemma character_mapping_main_writes:
  "snd (character_mapping_main inp) \<noteq> [] \<Longrightarrow>
   \<exists>characters. kanjidic inp = Some characters \<and>
     generate_mapping_batch (tool inp)
       (extract_unique_kanji_from_kanjidic (set_iteration inp) characters) \<noteq> []"
  by (auto simp: character_mapping_main_def Let_def split: option.splits if_splits)

lemma kanji_mapping_main_mismatch:
  assumes "kanji_tool inp (join [0x0A] unique_kanji) = Completed stdout"
    and "length (split 0x0A (strip stdout)) \<noteq> length unique_kanji"
    and "jmdict inp = Some words"
    and "unique_kanji = extract_unique_kanji_from_jmdict (kanji_set_iteration inp) words"
  shows "kanji_mapping_main inp =
     Inr (Saved, [(''src/kanji_mapping_generated.rs'', rust_prologue inp @ rust_epilogue inp),
                  (''output/kanji_mapping.json'', ascii ''{}'')])"
  using assms
  by (simp add: kanji_mapping_main_def Let_def kanji_generate_mapping_batch_def
      convert_lines_mismatch save_mapping_as_rust_code_def kanji_save_mapping_as_json_def
      json_dump_def)

text \<open>
  Claim C1. The kanji-mapping program on two kanji strings, U+5B66 U+751F and U+56FD,
  with a conversion tool that answers one line, U+570B, for the two: the program goes on
  to save, and writes both of its output files with an empty mapping.
\<close>

theorem kanji_mapping_main_saves_on_mismatch:
  "kanji_mapping_main
     \<lparr>jmdict = Some [Some [Some [0x5B66, 0x751F]], Some [Some [0x56FD]]],
      kanji_tool = (\<lambda>i. Completed [0x570B, 0x0A]),
      kanji_set_iteration = (\<lambda>xs. xs),
      rust_prologue = prologue, rust_epilogue = epilogue\<rparr> =
   Inr (Saved, [(''src/kanji_mapping_generated.rs'', prologue @ epilogue),
                (''output/kanji_mapping.json'', [0x7B, 0x7D])])"
  by (simp add: kanji_mapping_main_def Let_def kanji_generate_mapping_batch_def
      extract_unique_kanji_from_jmdict_def convert_lines_def strip_def isspace_def
      save_mapping_as_rust_code_def kanji_save_mapping_as_json_def json_dump_def ascii_def)

lemma character_mapping_main_same_input:
  "character_mapping_main
     \<lparr>kanjidic = Some [Some [0x5B66], Some [0x56FD]],
      chinese_char_exists = True,
      j2c_mapping = Some [([0x5B66, 0x751F], [0x5B78, 0x751F])],
      tool = (\<lambda>i. Completed [0x570B, 0x0A]),
      set_iteration = (\<lambda>xs. xs)\<rparr> = (Exit 1, [])"
  by (simp add: character_mapping_main_def Let_def generate_mapping_batch_def
      extract_unique_kanji_from_kanjidic_def convert_lines_def strip_def isspace_def)

section \<open>Properties of the SQL conversion\<close>

lemma escape_sql_string_Some:
  "escape_sql_string (Some s) = concat (map (\<lambda>c. if c = 0x27 then [0x27, 0x27] else [c]) s)"
  by (simp add: escape_sql_string_def replace_def)

lemma escape_Cons_quote:
  "escape_sql_string (Some (0x27 # s)) = 0x27 # 0x27 # escape_sql_string (Some s)"
  by (simp add: escape_sql_string_Some)

lemma escape_Cons_other:
  "c \<noteq> 0x27 \<Longrightarrow> escape_sql_string (Some (c # s)) = c # escape_sql_string (Some s)"
  by (simp add: escape_sql_string_Some)

lemma sql_literal_escape:
  assumes "rest = [] \<or> hd rest \<noteq> 0x27"
  shows "sql_literal (escape_sql_string (Some s) @ [0x27] @ rest) = Some (s, rest)"
proof (induction s)
  case Nil
  show ?case
  proof (cases rest)
    case Nil
    then show ?thesis by (simp add: escape_sql_string_Some)
  next
    case (Cons d ds)
    then have "d \<noteq> 0x27" using assms by simp
    then show ?thesis using Cons by (simp add: escape_sql_string_Some)
  qed
next
  case (Cons c s)
  obtain d ds where t: "escape_sql_string (Some s) @ [0x27] @ rest = d # ds"
    by (cases "escape_sql_string (Some s) @ [0x27] @ rest") simp_all
  show ?case
  proof (cases "c = 0x27")
    case True
    then show ?thesis using Cons.IH by (simp add: escape_Cons_quote)
  next
    case False
    have "sql_literal (escape_sql_string (Some (c # s)) @ [0x27] @ rest) = sql_literal (c # d # ds)"
      using False t by (simp add: escape_Cons_other)
    also have "\<dots> = map_option (apfst ((#) c)) (sql_literal (d # ds))"
      using False by simp
    also have "\<dots> = Some (c # s, rest)"
      using Cons.IH t by simp
    finally show ?thesis .
  qed
qed

lemma sql_literal_escaped:
  assumes "rest = [] \<or> hd rest \<noteq> 0x27"
  shows "sql_literal (escape_sql_string v @ [0x27] @ rest) = Some (text_of v, rest)"
proof (cases v)
  case None
  have "escape_sql_string None = escape_sql_string (Some [])"
    by (simp add: escape_sql_string_def replace_def)
  then show ?thesis using None sql_literal_escape[OF assms, of "[]"] by (simp add: text_of_def)
next
  case (Some s)
  then show ?thesis using sql_literal_escape[OF assms, of s] by (simp add: text_of_def)
qed

lemma after_append: "after b (b @ t) = Some t"
  by (simp add: after_def)

lemma sql_four_literals_steps:
  assumes "after (ascii ''('' @ [0x27]) text = Some t1" and "sql_literal t1 = Some (v1, r1)"
    and "after (ascii '', '' @ [0x27]) r1 = Some t2" and "sql_literal t2 = Some (v2, r2)"
    and "after (ascii '', '' @ [0x27]) r2 = Some t3" and "sql_literal t3 = Some (v3, r3)"
    and "after (ascii '', '' @ [0x27]) r3 = Some t4" and "sql_literal t4 = Some (v4, r4)"
  shows "sql_four_literals text = Some ([v1, v2, v3, v4], r4)"
  using assms by (simp add: sql_four_literals_def)

lemma sql_four_literals_escaped:
  assumes "rest = [] \<or> hd rest \<noteq> 0x27"
  shows "sql_four_literals
     (ascii ''('' @ [0x27] @ escape_sql_string w @ [0x27] @ ascii '', '' @ [0x27]
      @ escape_sql_string l @ [0x27] @ ascii '', '' @ [0x27] @ escape_sql_string d @ [0x27]
      @ ascii '', '' @ [0x27] @ escape_sql_string p @ [0x27] @ rest) =
     Some ([text_of w, text_of l, text_of d, text_of p], rest)"
proof -
  let ?sep = "ascii '', '' @ [0x27]"
  have sep: "?sep @ t = [] \<or> hd (?sep @ t) \<noteq> 0x27" for t
    by (simp add: ascii_def)
  let ?t4 = "escape_sql_string p @ [0x27] @ rest"
  let ?t3 = "escape_sql_string d @ [0x27] @ ?sep @ ?t4"
  let ?t2 = "escape_sql_string l @ [0x27] @ ?sep @ ?t3"
  let ?t1 = "escape_sql_string w @ [0x27] @ ?sep @ ?t2"
  have 1: "sql_literal ?t1 = Some (text_of w, ?sep @ ?t2)"
    by (rule sql_literal_escaped[OF sep])
  have 2: "sql_literal ?t2 = Some (text_of l, ?sep @ ?t3)"
    by (rule sql_literal_escaped[OF sep])
  have 3: "sql_literal ?t3 = Some (text_of d, ?sep @ ?t4)"
    by (rule sql_literal_escaped[OF sep])
  have 4: "sql_literal ?t4 = Some (text_of p, rest)"
    by (rule sql_literal_escaped[OF assms])
  have "sql_four_literals ((ascii ''('' @ [0x27]) @ ?t1) =
     Some ([text_of w, text_of l, text_of d, text_of p], rest)"
    by (rule sql_four_literals_steps[OF after_append 1 after_append 2 after_append 3
          after_append 4])
  then show ?thesis by simp
qed

lemma row_value_Inr:
  assumes "row_value row = Inr v"
  shows "\<exists>w l d p c. row ''word'' = Some w \<and> row ''language'' = Some l \<and>
     row ''definition'' = Some d \<and> row ''pronunciation'' = Some p \<and>
     row ''is_common'' = Some c \<and>
     v = ascii ''('' @ [0x27] @ escape_sql_string w @ [0x27] @ ascii '', '' @ [0x27]
         @ escape_sql_string l @ [0x27] @ ascii '', '' @ [0x27] @ escape_sql_string d @ [0x27]
         @ ascii '', '' @ [0x27] @ escape_sql_string p @ [0x27] @ ascii '', '' @ str c
         @ ascii '')''"
  using assms
  by (auto simp: row_value_def column_def Let_def split: option.splits sum.splits)

lemma convert_rows_batches:
  "convert_rows rows (batch, sqlfile) = Inr (batch', sqlfile') \<Longrightarrow>
   \<exists>vs bs. map row_value rows = map Inr vs \<and> batch @ vs = concat bs @ batch' \<and>
     sqlfile' = sqlfile @ concat (map (\<lambda>b. insert_statement b [0x3B, 0x0A, 0x0A]) bs)"
proof (induction rows arbitrary: batch sqlfile)
  case Nil
  then have "map row_value [] = map Inr [] \<and> batch @ [] = concat [] @ batch' \<and>
     sqlfile' = sqlfile @ concat (map (\<lambda>b. insert_statement b [0x3B, 0x0A, 0x0A]) [])"
    by simp
  then show ?case by blast
next
  case (Cons row rows)
  from Cons.prems obtain v where v: "row_value row = Inr v"
    by (cases "row_value row") simp_all
  show ?case
  proof (cases "length (batch @ [v]) \<ge> batch_size")
    case True
    then have "convert_rows rows
        ([], sqlfile @ insert_statement (batch @ [v]) [0x3B, 0x0A, 0x0A]) = Inr (batch', sqlfile')"
      using Cons.prems v by simp
    from Cons.IH[OF this] obtain vs bs where
      1: "map row_value rows = map Inr vs" and 2: "[] @ vs = concat bs @ batch'"
      and 3: "sqlfile' = (sqlfile @ insert_statement (batch @ [v]) [0x3B, 0x0A, 0x0A])
                @ concat (map (\<lambda>b. insert_statement b [0x3B, 0x0A, 0x0A]) bs)"
      by blast
    have "map row_value (row # rows) = map Inr (v # vs) \<and>
       batch @ (v # vs) = concat ((batch @ [v]) # bs) @ batch' \<and>
       sqlfile' = sqlfile
         @ concat (map (\<lambda>b. insert_statement b [0x3B, 0x0A, 0x0A]) ((batch @ [v]) # bs))"
      using 1 2 3 v by simp
    then show ?thesis by blast
  next
    case False
    then have "convert_rows rows (batch @ [v], sqlfile) = Inr (batch', sqlfile')"
      using Cons.prems v by simp
    from Cons.IH[OF this] obtain vs bs where
      1: "map row_value rows = map Inr vs" and 2: "(batch @ [v]) @ vs = concat bs @ batch'"
      and 3: "sqlfile' = sqlfile @ concat (map (\<lambda>b. insert_statement b [0x3B, 0x0A, 0x0A]) bs)"
      by blast
    have "map row_value (row # rows) = map Inr (v # vs) \<and>
       batch @ (v # vs) = concat bs @ batch' \<and>
       sqlfile' = sqlfile @ concat (map (\<lambda>b. insert_statement b [0x3B, 0x0A, 0x0A]) bs)"
      using 1 2 3 v by simp
    then show ?thesis by blast
  qed
qed

lemma convert_csv_main_statements:
  assumes "convert_csv_main reader = Inr sqlfile"
  shows "\<exists>vs bs remaining. map row_value reader = map Inr vs \<and> vs = concat bs @ remaining \<and>
     sqlfile = concat (map (\<lambda>b. insert_statement b [0x3B, 0x0A, 0x0A]) bs)
       @ (if remaining \<noteq> [] then insert_statement remaining [0x3B, 0x0A] else [])"
proof -
  from assms obtain batch sql where
    c: "convert_rows reader ([], []) = Inr (batch, sql)"
    and s: "sqlfile = (if batch \<noteq> [] then sql @ insert_statement batch [0x3B, 0x0A] else sql)"
    by (auto simp: convert_csv_main_def split: sum.splits)
  from convert_rows_batches[OF c] obtain vs bs where
    "map row_value reader = map Inr vs" "[] @ vs = concat bs @ batch"
    "sql = [] @ concat (map (\<lambda>b. insert_statement b [0x3B, 0x0A, 0x0A]) bs)"
    by blast
  then have "map row_value reader = map Inr vs \<and> vs = concat bs @ batch \<and>
     sqlfile = concat (map (\<lambda>b. insert_statement b [0x3B, 0x0A, 0x0A]) bs)
       @ (if batch \<noteq> [] then insert_statement batch [0x3B, 0x0A] else [])"
    using s by simp
  then show ?thesis by blast
qed

text \<open>
  Claim C8. \<open>escape_sql_string\<close> gives the empty string for \<open>None\<close> and otherwise
  the string with every single quote doubled. The value of a row is a parenthesised
  row in which the word, the language, the definition and the pronunciation stand between
  single quotes in their escaped form, and SQL reads the four literals back as the four
  values of the row: no quote of a value ends its literal. The text \<open>main\<close> writes is
  made of INSERT statements over the values of the rows, in order.
\<close>

theorem insert_values_are_escaped:
  "escape_sql_string None = [] \<and>
   escape_sql_string (Some s) = concat (map (\<lambda>c. if c = 0x27 then [0x27, 0x27] else [c]) s) \<and>
   (\<forall>v. row_value row = Inr v \<longrightarrow>
      (\<exists>w l d p c. row ''word'' = Some w \<and> row ''language'' = Some l \<and>
         row ''definition'' = Some d \<and> row ''pronunciation'' = Some p \<and>
         row ''is_common'' = Some c \<and>
         v = ascii ''('' @ [0x27] @ escape_sql_string w @ [0x27] @ ascii '', '' @ [0x27]
             @ escape_sql_string l @ [0x27] @ ascii '', '' @ [0x27] @ escape_sql_string d
             @ [0x27] @ ascii '', '' @ [0x27] @ escape_sql_string p @ [0x27] @ ascii '', ''
             @ str c @ ascii '')'' \<and>
         sql_four_literals v =
           Some ([text_of w, text_of l, text_of d, text_of p], ascii '', '' @ str c @ ascii '')''))) \<and>
   (\<forall>sqlfile. convert_csv_main reader = Inr sqlfile \<longrightarrow>
      (\<exists>vs bs remaining. map row_value reader = map Inr vs \<and> vs = concat bs @ remaining \<and>
         sqlfile = concat (map (\<lambda>b. insert_statement b [0x3B, 0x0A, 0x0A]) bs)
           @ (if remaining \<noteq> [] then insert_statement remaining [0x3B, 0x0A] else [])))"
proof (intro conjI allI impI)
  show "escape_sql_string None = []" by (simp add: escape_sql_string_def)
  show "escape_sql_string (Some s) = concat (map (\<lambda>c. if c = 0x27 then [0x27, 0x27] else [c]) s)"
    by (rule escape_sql_string_Some)
next
  fix v assume "row_value row = Inr v"
  from row_value_Inr[OF this] obtain w l d p c where
    r: "row ''word'' = Some w" "row ''language'' = Some l" "row ''definition'' = Some d"
       "row ''pronunciation'' = Some p" "row ''is_common'' = Some c"
    and v: "v = ascii ''('' @ [0x27] @ escape_sql_string w @ [0x27] @ ascii '', '' @ [0x27]
             @ escape_sql_string l @ [0x27] @ ascii '', '' @ [0x27] @ escape_sql_string d
             @ [0x27] @ ascii '', '' @ [0x27] @ escape_sql_string p @ [0x27] @ ascii '', ''
             @ str c @ ascii '')''"
    by blast
  have "ascii '', '' @ str c @ ascii '')'' = [] \<or> hd (ascii '', '' @ str c @ ascii '')'') \<noteq> 0x27"
    by (simp add: ascii_def)
  from sql_four_literals_escaped[OF this, of w l d p]
  have "sql_four_literals v =
     Some ([text_of w, text_of l, text_of d, text_of p], ascii '', '' @ str c @ ascii '')'')"
    unfolding v by simp
  with r v show "\<exists>w l d p c. row ''word'' = Some w \<and> row ''language'' = Some l \<and>
         row ''definition'' = Some d \<and> row ''pronunciation'' = Some p \<and>
         row ''is_common'' = Some c \<and>
         v = ascii ''('' @ [0x27] @ escape_sql_string w @ [0x27] @ ascii '', '' @ [0x27]
             @ escape_sql_string l @ [0x27] @ ascii '', '' @ [0x27] @ escape_sql_string d
             @ [0x27] @ ascii '', '' @ [0x27] @ escape_sql_string p @ [0x27] @ ascii '', ''
             @ str c @ ascii '')'' \<and>
         sql_four_literals v =
           Some ([text_of w, text_of l, text_of d, text_of p], ascii '', '' @ str c @ ascii '')'')"
    by blast
next
  fix sqlfile assume "convert_csv_main reader = Inr sqlfile"
  then show "\<exists>vs bs remaining. map row_value reader = map Inr vs \<and> vs = concat bs @ remaining \<and>
         sqlfile = concat (map (\<lambda>b. insert_statement b [0x3B, 0x0A, 0x0A]) bs)
           @ (if remaining \<noteq> [] then insert_statement remaining [0x3B, 0x0A] else [])"
    by (rule convert_csv_main_statements)
qed

theorem insert_values_are_escaped_witness:
  "\<exists>v. row_value [''word'' \<mapsto> Some (ascii ''it'' @ [0x27] @ ascii ''s''),
                    ''language'' \<mapsto> Some (ascii ''en''),
                    ''definition'' \<mapsto> None,
                    ''pronunciation'' \<mapsto> Some [0x27],
                    ''is_common'' \<mapsto> Some (ascii ''1'')] = Inr v \<and>
       sql_four_literals v =
         Some ([ascii ''it'' @ [0x27] @ ascii ''s'', ascii ''en'', [], [0x27]], ascii '', 1)'')"
proof -
  let ?row = "[''word'' \<mapsto> Some (ascii ''it'' @ [0x27] @ ascii ''s''),
               ''language'' \<mapsto> Some (ascii ''en''),
               ''definition'' \<mapsto> None,
               ''pronunciation'' \<mapsto> Some [0x27],
               ''is_common'' \<mapsto> Some (ascii ''1'')]"
  obtain v where v: "row_value ?row = Inr v"
    by (simp add: row_value_def column_def Let_def)
  from insert_values_are_escaped[of "[]" ?row "[]"] v
  obtain w l d p c where r: "?row ''word'' = Some w" "?row ''language'' = Some l"
      "?row ''definition'' = Some d" "?row ''pronunciation'' = Some p"
      "?row ''is_common'' = Some c"
    and f: "sql_four_literals v =
      Some ([text_of w, text_of l, text_of d, text_of p], ascii '', '' @ str c @ ascii '')'')"
    by blast
  from r have "w = Some (ascii ''it'' @ [0x27] @ ascii ''s'')" "l = Some (ascii ''en'')"
    "d = None" "p = Some [0x27]" "c = Some (ascii ''1'')"
    by simp_all
  with f have "sql_four_literals v =
     Some ([ascii ''it'' @ [0x27] @ ascii ''s'', ascii ''en'', [], [0x27]], ascii '', 1)'')"
    by (simp add: text_of_def str_def ascii_def)
  with v show ?thesis by blast
qed
section \<open>Properties of the JSON Lines conversion\<close>





lemma lines_from_Nil: "lines_from sample_size i [] = []"
  by (simp add: lines_from_def split: option.splits)

lemma lines_from_stop: "sample_stop sample_size i \<Longrightarrow> lines_from sample_size i lines = []"
  by (auto simp: lines_from_def sample_stop_def split: option.splits)

lemma lines_from_Cons:
  assumes "\<not> sample_stop sample_size i"
  shows "lines_from sample_size i (line # rest) = line # lines_from sample_size (Suc i) rest"
proof (cases sample_size)
  case None
  then show ?thesis by (simp add: lines_from_def)
next
  case (Some n)
  show ?thesis
  proof (cases "n = 0")
    case True
    then show ?thesis using Some by (simp add: lines_from_def)
  next
    case False
    then have "int i < n" using assms Some by (simp add: sample_stop_def)
    then have "nat (n - int i) = Suc (nat (n - int (Suc i)))" by simp
    then show ?thesis using Some False by (simp add: lines_from_def)
  qed
qed

lemma read_lines_stop:
  "sample_stop sample_size i \<Longrightarrow>
   read_lines loads sample_size i (Some line # rest) (entries, out) =
     Inr (entries, out @ [Stopping (case sample_size of Some n \<Rightarrow> n | None \<Rightarrow> 0)])"
  by simp

lemma read_lines_empty:
  "\<not> sample_stop sample_size i \<Longrightarrow> strip line = [] \<Longrightarrow>
   read_lines loads sample_size i (Some line # rest) (entries, out) =
     read_lines loads sample_size (Suc i) rest (entries, progress i out)"
  by (simp add: Let_def)

lemma read_lines_parsed:
  "\<not> sample_stop sample_size i \<Longrightarrow> strip line \<noteq> [] \<Longrightarrow> loads (strip line) = Parsed entry \<Longrightarrow>
   read_lines loads sample_size i (Some line # rest) (entries, out) =
     read_lines loads sample_size (Suc i) rest (entries @ [entry], progress i out)"
  by (simp add: Let_def)

lemma read_lines_invalid:
  "\<not> sample_stop sample_size i \<Longrightarrow> strip line \<noteq> [] \<Longrightarrow> loads (strip line) = Invalid \<Longrightarrow>
   read_lines loads sample_size i (Some line # rest) (entries, out) =
     read_lines loads sample_size (Suc i) rest (entries, out @ [Warning (i + 1)])"
  by (simp add: Let_def)

lemma read_lines_raised:
  "\<not> sample_stop sample_size i \<Longrightarrow> raises loads line \<Longrightarrow>
   read_lines loads sample_size i (Some line # rest) (entries, out) = Inl out"
  by (simp add: Let_def raises_def)


text \<open>
  When the parser raises another exception on one of the lines read, the loop is left
  by that exception.
\<close>

lemma read_lines_raise:
  assumes "\<exists>line\<in>set (lines_from sample_size i texts). raises loads line"
  shows "\<exists>out'. read_lines loads sample_size i (map Some texts) (entries, out) = Inl out'"
  using assms
proof (induction texts arbitrary: i entries out)
  case Nil
  then show ?case by (simp add: lines_from_Nil)
next
  case (Cons line rest)
  show ?case
  proof (cases "sample_stop sample_size i")
    case True
    with Cons.prems show ?thesis by (simp add: lines_from_stop[OF True])
  next
    case False
    note lf = lines_from_Cons[OF False, of line rest]
    show ?thesis
    proof (cases "raises loads line")
      case True
      with False show ?thesis by (simp add: raises_def)
    next
      case here: False
      with Cons.prems
      have later: "\<exists>line\<in>set (lines_from sample_size (Suc i) rest). raises loads line"
        by (simp add: lf)
      show ?thesis
      proof (cases "strip line = []")
        case True
        from Cons.IH[OF later, of entries "progress i out"]
        show ?thesis
          by (simp add: read_lines_empty[OF False True] del: read_lines.simps)
      next
        case nonempty: False
        show ?thesis
        proof (cases "loads (strip line)")
          case (Parsed entry)
          from Cons.IH[OF later, of "entries @ [entry]" "progress i out"]
          show ?thesis
            by (simp add: read_lines_parsed[where loads = loads and line = line,
                  OF False nonempty Parsed] del: read_lines.simps)
        next
          case Invalid
          from Cons.IH[OF later, of entries "out @ [Warning (i + 1)]"]
          show ?thesis
            by (simp add: read_lines_invalid[where loads = loads and line = line,
                  OF False nonempty Invalid] del: read_lines.simps)
        next
          case Raised
          with nonempty here show ?thesis by (simp add: raises_def)
        qed
      qed
    qed
  qed
qed




text \<open>
  An exception of the parser other than \<open>JSONDecodeError\<close> on one of the lines read, or
  a line that does not decode, ends the conversion: it fails and writes nothing, whatever
  the other lines hold.
\<close>

lemma jsonl_to_json_aborts_on_other_exception:
  assumes "\<exists>line\<in>set (lines_read sample_size texts). raises loads line"
  shows "success (jsonl_to_json loads (Some (map Some texts)) writable sample_size) = False \<and>
     written (jsonl_to_json loads (Some (map Some texts)) writable sample_size) = None"
proof -
  from assms
  have "\<exists>line\<in>set (lines_from sample_size 0 texts). raises loads line"
    by (simp add: lines_read_def)
  from read_lines_raise[OF this, of "[]" "[]"]
  obtain out where "read_lines loads sample_size 0 (map Some texts) ([], []) = Inl out"
    by blast
  then show ?thesis by (simp add: jsonl_to_json_def)
qed

lemma jsonl_to_json_aborts_on_undecodable_line:
  "jsonl_to_json (\<lambda>s. if take 1 s = [0x7B] then Parsed s else Invalid)
     (Some [Some [0x7B, 0x7D, 0x0A], None, Some [0x7B, 0x7D, 0x0A]]) True None =
   \<lparr>success = False, written = None, printed = [Error_reading]\<rparr>"
  by (simp add: jsonl_to_json_def sample_stop_def strip_def isspace_def progress_def Let_def)

section \<open>Properties of the server\<close>

lemma split_no_separator: "c \<notin> set s \<Longrightarrow> split c s = [s]"
  by (induction s) auto

lemma split_not_Nil: "split c s \<noteq> []"
  by (induction s) (auto split: list.splits)

lemma last_split_append:
  "last (split c (xs @ c # ys)) = last (split c ys)"
proof (induction xs)
  case Nil
  show ?case by (simp add: split_not_Nil)
next
  case (Cons x xs)
  show ?case
  proof (cases "x = c")
    case True
    then show ?thesis using Cons.IH by (simp add: split_not_Nil)
  next
    case False
    obtain w ws where s: "split c (xs @ c # ys) = w # ws"
      using split_not_Nil[of c "xs @ c # ys"] by (cases "split c (xs @ c # ys)") auto
    have "ws \<noteq> []"
    proof
      assume "ws = []"
      then have "split c (xs @ c # ys) = [w]" using s by simp
      moreover have "length (split c (xs @ c # ys)) \<ge> 2"
        by (induction xs) (auto simp: split_not_Nil Suc_le_eq split: list.splits)
      ultimately show False by simp
    qed
    then show ?thesis using False s Cons.IH by simp
  qed
qed

lemma last_split_word:
  assumes "0x2F \<notin> set word"
  shows "last (split 0x2F (ascii ''/output_dictionary/'' @ word @ ascii ''.json'')) =
     word @ ascii ''.json''"
proof -
  have "ascii ''/output_dictionary/'' @ word @ ascii ''.json'' =
     ascii ''/output_dictionary'' @ 0x2F # (word @ ascii ''.json'')"
    by (simp add: ascii_def)
  then have "last (split 0x2F (ascii ''/output_dictionary/'' @ word @ ascii ''.json'')) =
     last (split 0x2F (word @ ascii ''.json''))"
    by (simp only: last_split_append)
  also have "\<dots> = word @ ascii ''.json''"
    using assms by (simp add: split_no_separator ascii_def)
  finally show ?thesis .
qed

lemma serve_json_file_word:
  assumes "0x2F \<notin> set word"
  shows "serve_json_file files (ascii ''/output_dictionary/'' @ word @ ascii ''.json'') =
     (case output_dictionary files (word @ ascii ''.json'') of
        Some (Contents content) \<Rightarrow> Sent 200 ''application/json; charset=utf-8'' content
      | None \<Rightarrow>
          send_error 404 (ascii ''Character '' @ [0x27] @ word @ [0x27] @ ascii '' not found'')
      | Some (Unreadable e) \<Rightarrow> send_error 500 (ascii ''Error loading character data: '' @ e))"
proof -
  have t: "take (length (word @ ascii ''.json'') - 5) (word @ ascii ''.json'') = word"
    by (simp add: ascii_def)
  show ?thesis
    unfolding serve_json_file_def last_split_word[OF assms] Let_def t ..
qed

lemma send_error_not_found:
  "send_error 404 (ascii ''Character '' @ [0x27] @ word @ [0x27] @ ascii '' not found'') =
     (if latin_1 word then Send_error 404 else Uncaught)"
  by (simp add: send_error_def latin_1_def ascii_def)

lemma do_GET_json_path:
  "do_GET files (ascii ''/output_dictionary/'' @ word @ ascii ''.json'') =
     serve_json_file files (ascii ''/output_dictionary/'' @ word @ ascii ''.json'')"
proof -
  let ?path = "ascii ''/output_dictionary/'' @ word @ ascii ''.json''"
  have 1: "?path \<noteq> ascii ''/''" by (simp add: ascii_def)
  have 2: "0x2E \<in> set ?path" by (simp add: ascii_def)
  have 3: "startswith ?path (ascii ''/output_dictionary/'')"
    by (simp add: startswith_def)
  have 4: "endswith ?path (ascii ''.json'')"
    by (simp add: endswith_def ascii_def)
  show ?thesis unfolding do_GET_def using 1 2 3 4 by simp
qed

text \<open>
  A request for the file of a word (a file name, so without a slash): status 200, the
  content type \<open>application/json\<close> and the contents of the file when it exists and can
  be read. When the file does not exist the error 404 is sent only for a word within
  Latin-1; for any other word the status line cannot be encoded and the exception leaves
  the handler.
\<close>

lemma output_dictionary_request:
  assumes "0x2F \<notin> set word"
  shows "do_GET files (ascii ''/output_dictionary/'' @ word @ ascii ''.json'') =
     (case output_dictionary files (word @ ascii ''.json'') of
        Some (Contents content) \<Rightarrow> Sent 200 ''application/json; charset=utf-8'' content
      | None \<Rightarrow> if latin_1 word then Send_error 404 else Uncaught
      | Some (Unreadable e) \<Rightarrow> send_error 500 (ascii ''Error loading character data: '' @ e))"
  unfolding do_GET_json_path serve_json_file_word[OF assms] send_error_not_found ..

text \<open>
  Claim C2. A GET request for \<open>/output_dictionary/\<close>, the word U+5B66 and \<open>.json\<close>,
  when the dictionary directory has no file of that word: nothing is sent, and no 404;
  the handler ends with an exception it does not catch. A request for the word when its
  file exists is answered with status 200, \<open>application/json\<close> and the contents.
\<close>

theorem absent_word_sends_nothing:
  "do_GET \<lparr>index_html = Some (Contents (ascii ''<html></html>'')), output_dictionary = Map.empty\<rparr>
     (ascii ''/output_dictionary/'' @ [0x5B66] @ ascii ''.json'') = Uncaught \<and>
   do_GET \<lparr>index_html = Some (Contents (ascii ''<html></html>'')),
           output_dictionary = [[0x5B66, 0x2E, 0x6A, 0x73, 0x6F, 0x6E] \<mapsto> Contents (ascii ''{}'')]\<rparr>
     (ascii ''/output_dictionary/'' @ [0x5B66] @ ascii ''.json'') =
     Sent 200 ''application/json; charset=utf-8'' (ascii ''{}'')"
proof -
  have s: "0x2F \<notin> set [0x5B66::nat]" by simp
  have l: "\<not> latin_1 [0x5B66]" by (simp add: latin_1_def)
  show ?thesis
    unfolding output_dictionary_request[OF s] using l by (simp add: ascii_def)
qed

lemma absent_latin_1_word_not_found:
  "do_GET \<lparr>index_html = None, output_dictionary = Map.empty\<rparr>
     (ascii ''/output_dictionary/'' @ ascii ''abc'' @ ascii ''.json'') = Send_error 404"
proof -
  have s: "0x2F \<notin> set (ascii ''abc'')" by (simp add: ascii_def)
  show ?thesis
    unfolding output_dictionary_request[OF s] by (simp add: latin_1_def ascii_def)
qed

lemma do_GET_lookup_path:
  assumes "length path > 1" and "\<not> startswith path (ascii ''/static'')" and "0x2E \<notin> set path"
  shows "do_GET files path = serve_index files"
  using assms by (simp add: do_GET_def)

lemma serve_index_dictionary:
  "serve_index (files\<lparr>output_dictionary := d\<rparr>) = serve_index files"
  by (simp add: serve_index_def)

lemma do_GET_dictionary:
  assumes "\<not> (startswith path (ascii ''/output_dictionary/'') \<and> endswith path (ascii ''.json''))"
  shows "do_GET (files\<lparr>output_dictionary := d\<rparr>) path = do_GET files path"
  using assms by (auto simp: do_GET_def serve_index_dictionary)

text \<open>
  Claim C10. A GET request whose decoded path is longer than one character, does not
  start with \<open>/static\<close> and has no dot is answered by \<open>serve_index\<close>: with status 200,
  the content type \<open>text/html\<close> and the contents of \<open>index.html\<close> when that file can
  be read, whatever the dictionary directory holds. The answer to a path that does not
  both start with \<open>/output_dictionary/\<close> and end in \<open>.json\<close> never depends on the
  dictionary directory.
\<close>

theorem lookup_path_serves_index:
  "(length path > 1 \<and> \<not> startswith path (ascii ''/static'') \<and> 0x2E \<notin> set path \<longrightarrow>
      do_GET files path = serve_index files \<and>
      (\<forall>content. index_html files = Some (Contents content) \<longrightarrow>
         (\<forall>d. do_GET (files\<lparr>output_dictionary := d\<rparr>) path =
                Sent 200 ''text/html; charset=utf-8'' content))) \<and>
   (\<not> (startswith path (ascii ''/output_dictionary/'') \<and> endswith path (ascii ''.json'')) \<longrightarrow>
      (\<forall>d. do_GET (files\<lparr>output_dictionary := d\<rparr>) path = do_GET files path))"
proof (intro conjI impI allI)
  assume a: "length path > 1 \<and> \<not> startswith path (ascii ''/static'') \<and> 0x2E \<notin> set path"
  then show "do_GET files path = serve_index files"
    by (simp add: do_GET_lookup_path)
  fix content d
  assume "index_html files = Some (Contents content)"
  then have "serve_index (files\<lparr>output_dictionary := d\<rparr>) =
     Sent 200 ''text/html; charset=utf-8'' content"
    by (simp add: serve_index_def)
  then show "do_GET (files\<lparr>output_dictionary := d\<rparr>) path =
     Sent 200 ''text/html; charset=utf-8'' content"
    using a by (simp add: do_GET_lookup_path)
next
  fix d
  assume "\<not> (startswith path (ascii ''/output_dictionary/'') \<and> endswith path (ascii ''.json''))"
  then show "do_GET (files\<lparr>output_dictionary := d\<rparr>) path = do_GET files path"
    by (rule do_GET_dictionary)
qed

theorem lookup_path_serves_index_witness:
  "do_GET \<lparr>index_html = Some (Contents (ascii ''<html></html>'')),
           output_dictionary = Map.empty\<rparr> [0x2F, 0x7684] =
     Sent 200 ''text/html; charset=utf-8'' (ascii ''<html></html>'') \<and>
   do_GET \<lparr>index_html = Some (Contents (ascii ''<html></html>'')),
           output_dictionary = [[0x7684, 0x2E, 0x6A, 0x73, 0x6F, 0x6E] \<mapsto> Contents (ascii ''{}'')]\<rparr>
     [0x2F, 0x7684] =
     Sent 200 ''text/html; charset=utf-8'' (ascii ''<html></html>'')"
proof -
  let ?files = "\<lparr>index_html = Some (Contents (ascii ''<html></html>'')),
                 output_dictionary = Map.empty\<rparr>"
  have p: "length [0x2F, 0x7684::nat] > 1 \<and> \<not> startswith [0x2F, 0x7684] (ascii ''/static'') \<and>
     0x2E \<notin> set [0x2F, 0x7684::nat]"
    by (simp add: startswith_def ascii_def)
  have i: "index_html ?files = Some (Contents (ascii ''<html></html>''))" by simp
  from lookup_path_serves_index[of "[0x2F, 0x7684]" ?files] p i
  have all: "\<forall>d. do_GET (?files\<lparr>output_dictionary := d\<rparr>) [0x2F, 0x7684] =
     Sent 200 ''text/html; charset=utf-8'' (ascii ''<html></html>'')"
    by blast
  from all[THEN spec, of Map.empty]
       all[THEN spec, of "[[0x7684, 0x2E, 0x6A, 0x73, 0x6F, 0x6E] \<mapsto> Contents (ascii ''{}'')]"]
  show ?thesis by simp
qed
end
